theory Spec2Isabelle
  imports Complex_Main "HOL-Library.Sublist" "HOL-Library.AList"
begin

section \<open>Python values used by the modules\<close>

text \<open>
  An exception caught by \<^verbatim>\<open>except Exception as e\<close> is represented by the text
  \<^verbatim>\<open>str(e)\<close>, the only thing the callers read from it. Functions that can raise
  return the exception on the left of a sum. An import statement inside a function
  is a call that can raise: the imports of the packages \<open>llm\<close> and
  \<open>translation\<close>, which have no package file exporting the imported name in the
  tree, have their outcome as a parameter; the imports from \<open>asr\<close>, \<open>tts\<close> and
  \<open>pipeline.intent\<close>, whose package files export the names, succeed.

  Texts are \<^typ>\<open>string\<close>: a character is a code point below 256. The elapsed times
  and confidences, Python floats, are \<^typ>\<open>real\<close> numbers.
\<close>

datatype exn = Exn (str_of: string)

subsection \<open>String methods\<close>

definition lower_char :: "char \<Rightarrow> char" where
  "lower_char c =
     (let n = (of_char c :: nat)
      in if (65 \<le> n \<and> n \<le> 90) \<or> (192 \<le> n \<and> n \<le> 222 \<and> n \<noteq> 215)
         then char_of (n + 32) else c)"

definition lower :: "string \<Rightarrow> string" where
  "lower s = map lower_char s"

definition isspace :: "char \<Rightarrow> bool" where
  "isspace c =
     (let n = (of_char c :: nat)
      in (9 \<le> n \<and> n \<le> 13) \<or> (28 \<le> n \<and> n \<le> 32) \<or> n = 133 \<or> n = 160)"

definition strip :: "string \<Rightarrow> string" where
  "strip s = rev (dropWhile isspace (rev (dropWhile isspace s)))"

definition startswith :: "string \<Rightarrow> string \<Rightarrow> bool" where
  "startswith s p = (take (length p) s = p)"

text \<open>\<^verbatim>\<open>kw in text\<close>: \<open>kw\<close> occurs in \<open>text\<close> as a contiguous substring.\<close>

fun contains :: "string \<Rightarrow> string \<Rightarrow> bool" where
  "contains [] kw = (kw = [])"
| "contains (c # cs) kw = (startswith (c # cs) kw \<or> contains cs kw)"

text \<open>\<^verbatim>\<open>s.split(sep)\<close> for a one-character separator: never the empty list.\<close>

fun split_on :: "char \<Rightarrow> string \<Rightarrow> string list" where
  "split_on sep [] = [[]]"
| "split_on sep (c # cs) =
     (if c = sep then [] # split_on sep cs
      else (case split_on sep cs of [] \<Rightarrow> [[c]] | w # ws \<Rightarrow> (c # w) # ws))"

text \<open>\<^verbatim>\<open>s.split(sep, 1)\<close> on a text that has the separator: the parts before and after
  its first occurrence.\<close>

definition split1 :: "char \<Rightarrow> string \<Rightarrow> string \<times> string" where
  "split1 sep s = (takeWhile (\<lambda>c. c \<noteq> sep) s, drop 1 (dropWhile (\<lambda>c. c \<noteq> sep) s))"

text \<open>\<^verbatim>\<open>s.replace(old, new)\<close> for a non-empty \<open>old\<close>: every occurrence, left to right,
  without overlap.\<close>

function replace :: "string \<Rightarrow> string \<Rightarrow> string \<Rightarrow> string" where
  "replace old new [] = []"
| "replace old new (c # cs) =
     (if old \<noteq> [] \<and> startswith (c # cs) old
      then new @ replace old new (drop (length old) (c # cs))
      else c # replace old new cs)"
  by pat_completeness auto
termination
  by (relation "measure (\<lambda>(old, new, s). length s)") auto

fun join :: "string \<Rightarrow> string list \<Rightarrow> string" where
  "join sep [] = []"
| "join sep [x] = x"
| "join sep (x # y # ys) = x @ sep @ join sep (y # ys)"

text \<open>The slice \<^verbatim>\<open>xs[i:]\<close>: a negative \<open>i\<close> counts from the end, and is clipped there.\<close>

definition slice_from :: "int \<Rightarrow> 'a list \<Rightarrow> 'a list" where
  "slice_from i xs =
     (if i < 0 then drop (nat (int (length xs) + i)) xs else drop (nat i) xs)"

section \<open>The response-generation wrapper (llm/qwen.py)\<close>

datatype message = Message (role: string) (content: string)

record ChatResponse =
  response_content :: string
  tokens_used :: nat
  generation_time_ms :: real

text \<open>
  The wrapper's fields. \<open>model\<close> is whether \<^verbatim>\<open>self.model\<close> is set; the tokenizer is
  set with it and is not read on its own. A load that raises is taken to leave it unset.
\<close>

record QwenLLM =
  model_size :: string
  device :: string
  system_prompt :: string
  max_memory_messages :: int
  model :: bool
  conversation_history :: "message list"

text \<open>
  What surrounds the wrapper: the outcome of \<^verbatim>\<open>from ..llm import QwenLLM\<close>, run by
  the callers that build a wrapper, and the transformers library, outside the
  repository: loading the weights of a model id may raise, and so may generation, which
  otherwise gives the decoded and stripped reply, the number of new tokens and the time
  it measured.
\<close>

record llm_engine =
  import_qwen :: "exn option"
  cuda_available :: bool
  from_pretrained :: "string \<Rightarrow> exn option"
  generate :: "message list \<Rightarrow> nat \<Rightarrow> exn + (string \<times> nat \<times> real)"

definition MODELS :: "(string \<times> string) list" where
  "MODELS =
     [(''0.5b'', ''Qwen/Qwen2.5-0.5B-Instruct''),
      (''1.5b'', ''Qwen/Qwen2.5-1.5B-Instruct''),
      (''3b'', ''Qwen/Qwen2.5-3B-Instruct''),
      (''7b'', ''Qwen/Qwen2.5-7B-Instruct'')]"

definition DEFAULT_SYSTEM_PROMPT :: string where
  "DEFAULT_SYSTEM_PROMPT =
     ''You are a helpful voice assistant. You provide concise, friendly responses suitable for spoken conversation. Keep responses brief and natural - typically 1-3 sentences unless more detail is needed. You can help with:''
     @ [CHR 0x0A] @ ''- Answering questions''
     @ [CHR 0x0A] @ ''- Providing information''
     @ [CHR 0x0A] @ ''- Casual conversation''
     @ [CHR 0x0A] @ ''- Task assistance''
     @ [CHR 0x0A] @ [CHR 0x0A] @ ''Respond naturally as if speaking to someone.''"

text \<open>\<^verbatim>\<open>QwenLLM(model_size, device, system_prompt, max_memory_messages)\<close>\<close>

definition QwenLLM_init :: "string \<Rightarrow> string \<Rightarrow> string option \<Rightarrow> int \<Rightarrow> QwenLLM" where
  "QwenLLM_init msize dev prompt n =
     \<lparr> model_size = msize, device = dev,
       system_prompt = (case prompt of None \<Rightarrow> DEFAULT_SYSTEM_PROMPT
                        | Some s \<Rightarrow> if s = [] then DEFAULT_SYSTEM_PROMPT else s),
       max_memory_messages = n, model = False, conversation_history = [] \<rparr>"

definition load_model :: "llm_engine \<Rightarrow> QwenLLM \<Rightarrow> exn option \<times> QwenLLM" where
  "load_model eng q =
     (case map_of MODELS (model_size q) of
        None \<Rightarrow>
          (Some (Exn (''Unknown model size: '' @ model_size q
                       @ ''. Options: ['' @ [CHR 0x27] @ ''0.5b'' @ [CHR 0x27] @ '', ''
                       @ [CHR 0x27] @ ''1.5b'' @ [CHR 0x27] @ '', ''
                       @ [CHR 0x27] @ ''3b'' @ [CHR 0x27] @ '', ''
                       @ [CHR 0x27] @ ''7b'' @ [CHR 0x27] @ '']'')), q)
      | Some model_id \<Rightarrow>
          (case from_pretrained eng model_id of
             Some e \<Rightarrow> (Some e, q)
           | None \<Rightarrow>
               (None,
                if device q = ''cuda'' \<and> cuda_available eng then q\<lparr>model := True\<rparr>
                else q\<lparr>model := True, device := ''cpu''\<rparr>)))"

definition build_messages :: "QwenLLM \<Rightarrow> string \<Rightarrow> message list" where
  "build_messages q user_input =
     [Message ''system'' (system_prompt q)]
     @ slice_from (- max_memory_messages q) (conversation_history q)
     @ [Message ''user'' user_input]"

text \<open>
  \<^verbatim>\<open>chat(user_input, max_new_tokens, remember)\<close>. The sampling parameters go to the
  library unchanged and are left out.
\<close>

definition remember_turn :: "QwenLLM \<Rightarrow> string \<Rightarrow> string \<Rightarrow> QwenLLM" where
  "remember_turn q user_input response_text =
     (let h = conversation_history q
              @ [Message ''user'' user_input, Message ''assistant'' response_text]
      in if int (length h) > max_memory_messages q * 2
         then q\<lparr>conversation_history := slice_from (- max_memory_messages q * 2) h\<rparr>
         else q\<lparr>conversation_history := h\<rparr>)"

definition chat :: "llm_engine \<Rightarrow> QwenLLM \<Rightarrow> string \<Rightarrow> nat \<Rightarrow> bool
    \<Rightarrow> (exn + ChatResponse) \<times> QwenLLM" where
  "chat eng q0 user_input max_new_tokens remember =
     (case (if model q0 then (None, q0) else load_model eng q0) of
        (Some e, q) \<Rightarrow> (Inl e, q)
      | (None, q) \<Rightarrow>
          (case generate eng (build_messages q user_input) max_new_tokens of
             Inl e \<Rightarrow> (Inl e, q)
           | Inr (response_text, tokens_generated, generation_time) \<Rightarrow>
               (Inr \<lparr> response_content = response_text, tokens_used = tokens_generated,
                      generation_time_ms = generation_time \<rparr>,
                if remember then remember_turn q user_input response_text else q)))"

definition clear_history :: "QwenLLM \<Rightarrow> QwenLLM" where
  "clear_history q = q\<lparr>conversation_history := []\<rparr>"

definition set_system_prompt :: "QwenLLM \<Rightarrow> string \<Rightarrow> QwenLLM" where
  "set_system_prompt q prompt = q\<lparr>system_prompt := prompt\<rparr>"

section \<open>The intent detector (pipeline/intent.py)\<close>

datatype IntentType =
  GREETING | QUESTION | COMMAND | INFORMATION | TASK | WEATHER | TIME | REMINDER
  | CALCULATION | TRANSLATION | GENERAL | UNKNOWN

text \<open>The members of the enumeration in the order of their declaration, with their values.\<close>

definition IntentType_members :: "(IntentType \<times> string) list" where
  "IntentType_members =
     [(GREETING, ''greeting''), (QUESTION, ''question''), (COMMAND, ''command''),
      (INFORMATION, ''information''), (TASK, ''task''), (WEATHER, ''weather''),
      (TIME, ''time''), (REMINDER, ''reminder''), (CALCULATION, ''calculation''),
      (TRANSLATION, ''translation''), (GENERAL, ''general''), (UNKNOWN, ''unknown'')]"

definition value_of :: "IntentType \<Rightarrow> string" where
  "value_of t = (case map_of IntentType_members t of Some v \<Rightarrow> v | None \<Rightarrow> [])"

text \<open>\<^verbatim>\<open>IntentType(s)\<close>: the member with that value; \<open>None\<close> is the ValueError.\<close>

definition IntentType_of_value :: "string \<Rightarrow> IntentType option" where
  "IntentType_of_value s = map_of (map (\<lambda>(t, v). (v, t)) IntentType_members) s"

record Intent =
  type :: IntentType
  confidence :: real
  entities :: "(string \<times> string) list"
  original_text :: string
  intent_english_text :: string
  description :: string

text \<open>The keyword table, a dict: its entries in the order they are written.\<close>

definition INTENT_PATTERNS :: "(IntentType \<times> string list) list" where
  "INTENT_PATTERNS =
     [(GREETING,
        [''hello'', ''hi'', ''hey'', ''good morning'', ''good evening'',
         ''namaste'', ''how are you'', ''what'' @ [CHR 0x27] @ ''s up'']),
      (WEATHER,
        [''weather'', ''temperature'', ''rain'', ''sunny'', ''cloudy'',
         ''forecast'', ''climate'', ''hot'', ''cold'']),
      (TIME,
        [''time'', ''what time'', ''clock'', ''hour'', ''date'', ''today'',
         ''day'', ''month'', ''year'']),
      (REMINDER,
        [''remind'', ''reminder'', ''alarm'', ''schedule'', ''appointment'',
         ''notify'', ''alert'', ''set reminder'']),
      (CALCULATION,
        [''calculate'', ''math'', ''plus'', ''minus'', ''multiply'', ''divide'',
         ''sum'', ''total'', ''percentage'', ''how much is'']),
      (QUESTION,
        [''what'', ''who'', ''where'', ''when'', ''why'', ''how'', ''which'',
         ''is it'', ''are you'', ''can you'', ''could you'', ''tell me'']),
      (COMMAND,
        [''turn on'', ''turn off'', ''switch'', ''open'', ''close'',
         ''start'', ''stop'', ''play'', ''pause'', ''set''])]"

record IntentDetector =
  use_llm :: bool
  intent_llm :: "QwenLLM option"

definition IntentDetector_init :: "bool \<Rightarrow> IntentDetector" where
  "IntentDetector_init u = \<lparr> use_llm = u, intent_llm = None \<rparr>"

definition INTENT_SYSTEM_PROMPT :: string where
  \<open>INTENT_SYSTEM_PROMPT =
     ''You are an intent classifier. Given a user message, identify:''
     @ [CHR 0x0A] @ ''1. The primary intent (greeting, question, command, weather, time, reminder, calculation, information, task, general)''
     @ [CHR 0x0A] @ ''2. Key entities mentioned (names, numbers, locations, times)''
     @ [CHR 0x0A] @ ''3. A brief description of what the user wants''
     @ [CHR 0x0A] @ [CHR 0x0A] @ ''Respond in this exact format:''
     @ [CHR 0x0A] @ ''INTENT: <intent_type>''
     @ [CHR 0x0A] @ ''ENTITIES: <key: value pairs or "none">''
     @ [CHR 0x0A] @ ''DESCRIPTION: <brief description>''\<close>

text \<open>\<^verbatim>\<open>_get_llm\<close>: the model wrapper is built on first use, after the import of its
  class, which can raise; its weights are loaded later, by \<open>chat\<close>.\<close>

definition get_llm :: "llm_engine \<Rightarrow> IntentDetector
    \<Rightarrow> (exn + QwenLLM option) \<times> IntentDetector" where
  "get_llm eng d =
     (if intent_llm d = None \<and> use_llm d
      then (case import_qwen eng of
              Some e \<Rightarrow> (Inl e, d)
            | None \<Rightarrow>
                (let q = set_system_prompt (QwenLLM_init ''1.5b'' ''cuda'' None 10)
                           INTENT_SYSTEM_PROMPT
                 in (Inr (Some q), d\<lparr>intent_llm := Some q\<rparr>)))
      else (Inr (intent_llm d), d))"

text \<open>The number of keywords of one category found in the text.\<close>

definition score :: "string \<Rightarrow> string list \<Rightarrow> nat" where
  "score text_lower keywords = length (filter (contains text_lower) keywords)"

text \<open>The dict \<open>scores\<close> after the loop: the categories with a positive score, in the
  order of the table.\<close>

definition scores :: "string \<Rightarrow> (IntentType \<times> nat) list" where
  "scores text_lower =
     filter (\<lambda>(intent_type, s). s > 0)
       (map (\<lambda>(intent_type, keywords). (intent_type, score text_lower keywords))
          INTENT_PATTERNS)"

text \<open>\<^verbatim>\<open>max(scores, key=scores.get)\<close>: the built-in replaces its candidate only by a
  strictly greater one, so the first key with the greatest score is returned.\<close>

fun max_key :: "'a \<times> nat \<Rightarrow> ('a \<times> nat) list \<Rightarrow> 'a" where
  "max_key (k, v) [] = k"
| "max_key (k, v) ((k', v') # rest) =
     (if v' > v then max_key (k', v') rest else max_key (k, v) rest)"

definition keyword_detect :: "string \<Rightarrow> IntentType option" where
  "keyword_detect text =
     (case scores (lower text) of
        [] \<Rightarrow> None
      | kv # rest \<Rightarrow> Some (max_key kv rest))"

definition descriptions :: "(IntentType \<times> string) list" where
  "descriptions =
     [(GREETING, ''User is greeting or starting a conversation''),
      (WEATHER, ''User is asking about weather or climate''),
      (TIME, ''User is asking about time or date''),
      (REMINDER, ''User wants to set a reminder or alarm''),
      (CALCULATION, ''User wants to perform a calculation''),
      (QUESTION, ''User is asking a question''),
      (COMMAND, ''User is giving a command or instruction''),
      (GENERAL, ''General conversation or query'')]"

definition get_intent_description :: "IntentType \<Rightarrow> string \<Rightarrow> string" where
  "get_intent_description intent_type text =
     (case map_of descriptions intent_type of Some d \<Rightarrow> d | None \<Rightarrow> ''General query'')"

text \<open>\<^verbatim>\<open>_parse_llm_response\<close>: one round of the loop over the lines, on the three
  variables it assigns.\<close>

definition add_entity :: "(string \<times> string) list \<Rightarrow> string \<Rightarrow> (string \<times> string) list" where
  "add_entity ents pair =
     (if CHR '':'' \<in> set pair
      then (case split1 CHR '':'' pair of (k, v) \<Rightarrow> AList.update (strip k) (strip v) ents)
      else ents)"

definition parse_line :: "IntentType \<times> (string \<times> string) list \<times> string \<Rightarrow> string
    \<Rightarrow> IntentType \<times> (string \<times> string) list \<times> string" where
  "parse_line st line0 =
     (case st of (intent_type, ents, descr) \<Rightarrow>
        (let line = strip line0
         in if startswith line ''INTENT:'' then
              (let intent_str = lower (strip (replace ''INTENT:'' [] line))
               in (case IntentType_of_value intent_str of
                     Some t \<Rightarrow> (t, ents, descr)
                   | None \<Rightarrow> (GENERAL, ents, descr)))
            else if startswith line ''ENTITIES:'' then
              (let entities_str = strip (replace ''ENTITIES:'' [] line)
               in if lower entities_str \<noteq> ''none''
                  then (intent_type,
                        foldl add_entity ents (split_on CHR '','' entities_str), descr)
                  else (intent_type, ents, descr))
            else if startswith line ''DESCRIPTION:'' then
              (intent_type, ents, strip (replace ''DESCRIPTION:'' [] line))
            else (intent_type, ents, descr)))"

definition parse_llm_response :: "string \<Rightarrow> string \<Rightarrow> string \<Rightarrow> Intent" where
  "parse_llm_response response original english =
     (case foldl parse_line (GENERAL, [], ''General query'')
             (split_on (CHR 0x0A) (strip response)) of
        (intent_type, ents, descr) \<Rightarrow>
          \<lparr> type = intent_type, confidence = 0.85, entities = ents,
            original_text = original, intent_english_text = english,
            description = descr \<rparr>)"

definition general_query :: "string \<Rightarrow> string \<Rightarrow> Intent" where
  "general_query original english =
     \<lparr> type = GENERAL, confidence = 0.5, entities = [],
       original_text = original, intent_english_text = english,
       description = ''General query'' \<rparr>"

definition classify_prompt :: "string \<Rightarrow> string" where
  "classify_prompt english = ''Classify this user message: '' @ [CHR 0x22] @ english @ [CHR 0x22]"

text \<open>\<^verbatim>\<open>_llm_detect\<close>: \<^verbatim>\<open>_get_llm()\<close> is called before the \<open>try\<close>, so what it
  raises leaves the function; the call of the model and the parsing are inside the
  \<open>try\<close>.\<close>

definition llm_detect :: "llm_engine \<Rightarrow> IntentDetector \<Rightarrow> string \<Rightarrow> string
    \<Rightarrow> (exn + Intent) \<times> IntentDetector" where
  "llm_detect eng d0 original english =
     (case get_llm eng d0 of
        (Inl e, d) \<Rightarrow> (Inl e, d)
      | (Inr None, d) \<Rightarrow> (Inr (general_query original english), d)
      | (Inr (Some q), d) \<Rightarrow>
          (case chat eng q (classify_prompt english) 100 False of
             (Inl e, q') \<Rightarrow>
               (Inr (general_query original english), d\<lparr>intent_llm := Some q'\<rparr>)
           | (Inr response, q') \<Rightarrow>
               (Inr (parse_llm_response (response_content response) original english),
                d\<lparr>intent_llm := Some q'\<rparr>)))"

text \<open>\<^verbatim>\<open>x or y\<close> on an optional text: \<open>None\<close> and the empty text are false.\<close>

definition or_text :: "string option \<Rightarrow> string \<Rightarrow> string" where
  "or_text x y = (case x of None \<Rightarrow> y | Some s \<Rightarrow> if s = [] then y else s)"

definition detect :: "llm_engine \<Rightarrow> IntentDetector \<Rightarrow> string \<Rightarrow> string option
    \<Rightarrow> (exn + Intent) \<times> IntentDetector" where
  "detect eng d text english_text =
     (let analysis_text = lower (or_text english_text text);
          detected_intent = keyword_detect analysis_text
      in if detected_intent \<noteq> None \<and> detected_intent \<noteq> Some UNKNOWN then
           (Inr \<lparr> type = the detected_intent, confidence = 0.8, entities = [],
                  original_text = text,
                  intent_english_text = or_text english_text text,
                  description = get_intent_description (the detected_intent) analysis_text \<rparr>,
            d)
         else if use_llm d then llm_detect eng d text (or_text english_text text)
         else (Inr \<lparr> type = GENERAL, confidence = 0.5, entities = [],
                     original_text = text,
                     intent_english_text = or_text english_text text,
                     description = ''General conversation or query'' \<rparr>, d))"

text \<open>The member of the enumeration that a line of the model's output names, if it is
  an \<open>INTENT:\<close> line with a known label.\<close>

definition intent_label :: "string \<Rightarrow> IntentType option" where
  "intent_label line0 =
     (let line = strip line0
      in if startswith line ''INTENT:''
         then IntentType_of_value (lower (strip (replace ''INTENT:'' [] line)))
         else None)"

section \<open>The agent orchestrator (agents/orchestrator.py)\<close>

text \<open>The values stored in a handler's output fragment.\<close>

datatype pyval = PStr string | PBool bool | PList "pyval list"

type_synonym fragment = "(string \<times> pyval) list"

text \<open>
  \<open>AgentState\<close>, a dict that \<open>process\<close> creates with all of its keys.
  \<open>agent_outputs\<close> is a dict too: an association list in insertion order.
\<close>

record AgentState =
  user_input :: string
  language :: string
  intent :: "string option"
  state_entities :: "fragment list"
  agent_outputs :: "(string \<times> fragment) list"
  final_response :: "string option"
  state_error :: "string option"

text \<open>The values of the module's own \<open>IntentType\<close> enumeration.\<close>

definition INFORMATION_QUERY :: string where "INFORMATION_QUERY = ''information_query''"
definition TASK_MANAGEMENT :: string where "TASK_MANAGEMENT = ''task_management''"
definition SMART_HOME :: string where "SMART_HOME = ''smart_home''"
definition GENERAL_CHAT :: string where "GENERAL_CHAT = ''general_chat''"

definition classify_intent :: "AgentState \<Rightarrow> AgentState" where
  "classify_intent state =
     (let text = lower (user_input state)
      in state\<lparr>intent := Some
           (if list_ex (contains text)
                 [''what'', ''who'', ''where'', ''when'', ''how'', ''why'', ''tell me'']
            then INFORMATION_QUERY
            else if list_ex (contains text)
                 [''remind'', ''schedule'', ''task'', ''todo'', ''calendar'']
            then TASK_MANAGEMENT
            else if list_ex (contains text)
                 [''light'', ''fan'', ''ac'', ''door'', ''temperature'']
            then SMART_HOME
            else GENERAL_CHAT)\<rparr>)"

definition run_info_agent :: "AgentState \<Rightarrow> AgentState" where
  "run_info_agent state =
     state\<lparr>agent_outputs :=
       AList.update ''info_agent''
         [(''response'', PStr (''[Info Agent] Processing query: '' @ user_input state)),
          (''sources'', PList [])]
         (agent_outputs state)\<rparr>"

definition run_task_agent :: "AgentState \<Rightarrow> AgentState" where
  "run_task_agent state =
     state\<lparr>agent_outputs :=
       AList.update ''task_agent''
         [(''response'', PStr (''[Task Agent] Processing task request: '' @ user_input state)),
          (''task_created'', PBool False)]
         (agent_outputs state)\<rparr>"

definition run_chat_agent :: "AgentState \<Rightarrow> AgentState" where
  "run_chat_agent state =
     state\<lparr>agent_outputs :=
       AList.update ''chat_agent''
         [(''response'', PStr (''[Chat Agent] I understand you said: '' @ user_input state))]
         (agent_outputs state)\<rparr>"

text \<open>The handler registered under a node name by \<open>setup\<close>.\<close>

definition run_agent :: "string \<Rightarrow> AgentState \<Rightarrow> AgentState" where
  "run_agent node state =
     (if node = ''info_agent'' then run_info_agent state
      else if node = ''task_agent'' then run_task_agent state
      else if node = ''chat_agent'' then run_chat_agent state
      else state)"

text \<open>The list \<open>responses\<close> built by the loop of \<^verbatim>\<open>_generate_response\<close>.\<close>

definition responses :: "(string \<times> fragment) list \<Rightarrow> pyval list" where
  "responses outputs =
     concat (map (\<lambda>(agent_name, output).
                    case map_of output ''response'' of Some r \<Rightarrow> [r] | None \<Rightarrow> [])
               outputs)"

text \<open>The decimal numeral of a natural number, as \<^verbatim>\<open>str\<close> prints it.\<close>

function decimal :: "nat \<Rightarrow> string" where
  "decimal n =
     (if n < 10 then [char_of (48 + n)] else decimal (n div 10) @ [char_of (48 + n mod 10)])"
  by pat_completeness auto
termination
  by (relation "measure id") auto

definition type_name :: "pyval \<Rightarrow> string" where
  "type_name v = (case v of PStr s \<Rightarrow> ''str'' | PBool b \<Rightarrow> ''bool'' | PList vs \<Rightarrow> ''list'')"

text \<open>\<^verbatim>\<open>" ".join(responses)\<close> raises a TypeError on the first item that is not a text;
  \<open>i\<close> is the index of the first item of the list in the sequence joined.\<close>

fun texts_from :: "nat \<Rightarrow> pyval list \<Rightarrow> exn + string list" where
  "texts_from i [] = Inr []"
| "texts_from i (PStr s # rs) =
     (case texts_from (Suc i) rs of Inl e \<Rightarrow> Inl e | Inr ss \<Rightarrow> Inr (s # ss))"
| "texts_from i (r # rs) =
     Inl (Exn (''sequence item '' @ decimal i @ '': expected str instance, ''
               @ type_name r @ '' found''))"

definition texts :: "pyval list \<Rightarrow> exn + string list" where
  "texts rs = texts_from 0 rs"

definition generate_response :: "AgentState \<Rightarrow> exn + AgentState" where
  "generate_response state =
     (let rs = responses (agent_outputs state)
      in if rs \<noteq> [] then
           (case texts rs of
              Inl e \<Rightarrow> Inl e
            | Inr ss \<Rightarrow> Inr (state\<lparr>final_response := Some (join '' '' ss)\<rparr>))
         else Inr (state\<lparr>final_response :=
                     Some (''I couldn'' @ [CHR 0x27] @ ''t process your request.'')\<rparr>))"

record AgentResult =
  response :: "string option"
  result_intent :: "string option"
  result_language :: string

text \<open>
  \<open>process\<close>. The compiled graph, when there is one, belongs to the graph library:
  its \<open>invoke\<close> is a parameter. Without it the three steps run in a fixed order.
\<close>

definition initial_state :: "string \<Rightarrow> string \<Rightarrow> AgentState" where
  "initial_state input lang =
     \<lparr> user_input = input, language = lang, intent = None, state_entities = [],
       agent_outputs = [], final_response = None, state_error = None \<rparr>"

definition agent_process :: "(AgentState \<Rightarrow> exn + AgentState) option \<Rightarrow> string \<Rightarrow> string
    \<Rightarrow> exn + AgentResult" where
  "agent_process graph input lang =
     (case (case graph of
              Some invoke \<Rightarrow> invoke (initial_state input lang)
            | None \<Rightarrow>
                generate_response (run_chat_agent (classify_intent (initial_state input lang)))) of
        Inl e \<Rightarrow> Inl e
      | Inr result \<Rightarrow>
          Inr \<lparr> response = final_response result, result_intent = intent result,
                result_language = language result \<rparr>)"

section \<open>The pipeline orchestrator (pipeline/orchestrator.py)\<close>

datatype audio = Samples "real list" | AudioFile string

record PipelineResult =
  audio_input :: "string option"
  malayalam_text :: string
  asr_time_ms :: real
  english_text :: string
  translation_ml_en_time_ms :: real
  intent_type :: string
  intent_description :: string
  intent_confidence :: real
  intent_entities :: "(string \<times> string) list"
  english_response :: string
  llm_time_ms :: real
  malayalam_response :: string
  translation_en_ml_time_ms :: real
  audio_output :: "audio option"
  tts_time_ms :: real
  total_time_ms :: real
  success :: bool
  error :: "string option"

text \<open>\<^verbatim>\<open>PipelineResult(audio_input=audio_path)\<close>: every other field at its default.\<close>

definition PipelineResult_init :: "string option \<Rightarrow> PipelineResult" where
  "PipelineResult_init audio_path =
     \<lparr> audio_input = audio_path, malayalam_text = [], asr_time_ms = 0,
       english_text = [], translation_ml_en_time_ms = 0,
       intent_type = [], intent_description = [], intent_confidence = 0,
       intent_entities = [],
       english_response = [], llm_time_ms = 0,
       malayalam_response = [], translation_en_ml_time_ms = 0,
       audio_output = None, tts_time_ms = 0,
       total_time_ms = 0, success = True, error = None \<rparr>"

text \<open>
  The orchestrator's fields. The speech-recognition, translation and synthesis handles
  are opaque objects of the engines: only whether they are set is recorded.
\<close>

record VoiceAssistantPipeline =
  asr_engine :: string
  asr_model_size :: string
  llm_model_size :: string
  tts_engine :: string
  pipeline_device :: string
  detect_intent :: bool
  asr :: bool
  translator :: bool
  llm :: "QwenLLM option"
  tts :: bool
  intent_detector :: "IntentDetector option"

definition VoiceAssistantPipeline_init ::
    "string \<Rightarrow> string \<Rightarrow> string \<Rightarrow> string \<Rightarrow> string \<Rightarrow> bool \<Rightarrow> VoiceAssistantPipeline" where
  "VoiceAssistantPipeline_init engine asr_size llm_size tts_backend dev detect_flag =
     \<lparr> asr_engine = engine, asr_model_size = asr_size, llm_model_size = llm_size,
       tts_engine = tts_backend, pipeline_device = dev, detect_intent = detect_flag,
       asr = False, translator = False, llm = None, tts = False,
       intent_detector = None \<rparr>"

text \<open>
  The engines, outside the orchestrator, each with the contract it is called through:
  loading may raise, and so may every call. \<open>import_translation\<close> is the outcome of
  \<^verbatim>\<open>from ..translation import IndicTranslator\<close>, and the outcome of
  \<^verbatim>\<open>from ..llm import QwenLLM\<close> is part of \<open>qwen\<close>. \<open>perf_counter\<close> gives the
  successive readings of the clock during one call of \<open>process\<close>.
\<close>

record engines =
  whisper_load :: "string \<Rightarrow> string \<Rightarrow> exn option"
  whisper_transcribe :: "string \<Rightarrow> exn + string"
  import_translation :: "exn option"
  translator_load :: "string \<Rightarrow> exn option"
  ml_to_en :: "string \<Rightarrow> exn + string"
  en_to_ml :: "string \<Rightarrow> exn + string"
  qwen :: llm_engine
  tts_synthesize :: "string \<Rightarrow> string \<Rightarrow> string \<Rightarrow> string option \<Rightarrow> exn + audio"
  perf_counter :: "nat \<Rightarrow> real"

text \<open>The calls made to the engines and to the detector, noted as they are made.\<close>

datatype call =
  LoadASR | Transcribe string | LoadTranslator | MlToEn string | EnToMl string
  | Detect string string | LoadLLM | Chat string | Synthesize string string "string option"

text \<open>
  The state of one call of \<open>process\<close>: the record being filled, the orchestrator, the
  calls made so far and the number of clock readings taken.
\<close>

record run =
  result :: PipelineResult
  pipeline :: VoiceAssistantPipeline
  trace :: "call list"
  ticks :: nat

definition now :: "engines \<Rightarrow> run \<Rightarrow> real \<times> run" where
  "now env s = (perf_counter env (ticks s), s\<lparr>ticks := Suc (ticks s)\<rparr>)"

definition record_call :: "call \<Rightarrow> run \<Rightarrow> run" where
  "record_call c s = s\<lparr>trace := trace s @ [c]\<rparr>"

definition VOICE_SYSTEM_PROMPT :: string where
  "VOICE_SYSTEM_PROMPT =
     ''You are a helpful voice assistant that speaks Malayalam. You provide concise, friendly responses suitable for spoken conversation. Keep responses brief (1-3 sentences) and natural. Respond in English - your response will be translated to Malayalam.''
     @ [CHR 0x0A] @ [CHR 0x0A] @ ''You can help with:''
     @ [CHR 0x0A] @ ''- Answering questions''
     @ [CHR 0x0A] @ ''- Providing information''
     @ [CHR 0x0A] @ ''- Casual conversation''
     @ [CHR 0x0A] @ ''- Simple tasks''
     @ [CHR 0x0A] @ [CHR 0x0A] @ ''Be conversational and helpful.''"

subsection \<open>Lazy loading of the components\<close>

text \<open>Each handle is assigned before its model is loaded, so a load that raises leaves
  the handle set; an import that raises comes before the assignment and leaves it
  unset.\<close>

definition load_asr :: "engines \<Rightarrow> run \<Rightarrow> exn option \<times> run" where
  "load_asr env s =
     (let p = pipeline s
      in if asr p then (None, s)
         else if asr_engine p = ''whisper''
         then (whisper_load env (asr_model_size p) (pipeline_device p),
               record_call LoadASR (s\<lparr>pipeline := p\<lparr>asr := True\<rparr>\<rparr>))
         else (Some (Exn (''Unknown ASR engine: '' @ asr_engine p)), s))"

definition load_translator :: "engines \<Rightarrow> run \<Rightarrow> exn option \<times> run" where
  "load_translator env s =
     (let p = pipeline s
      in if translator p then (None, s)
         else (case import_translation env of
                 Some e \<Rightarrow> (Some e, s)
               | None \<Rightarrow>
                   (translator_load env (pipeline_device p),
                    record_call LoadTranslator (s\<lparr>pipeline := p\<lparr>translator := True\<rparr>\<rparr>))))"

definition load_llm :: "engines \<Rightarrow> run \<Rightarrow> exn option \<times> run" where
  "load_llm env s =
     (let p = pipeline s
      in if llm p \<noteq> None then (None, s)
         else (case import_qwen (qwen env) of
                 Some e \<Rightarrow> (Some e, s)
               | None \<Rightarrow>
                   (case load_model (qwen env)
                           (set_system_prompt
                              (QwenLLM_init (llm_model_size p) (pipeline_device p) None 10)
                              VOICE_SYSTEM_PROMPT) of
                      (outcome, q) \<Rightarrow>
                        (outcome, record_call LoadLLM (s\<lparr>pipeline := p\<lparr>llm := Some q\<rparr>\<rparr>)))))"

definition load_tts :: "run \<Rightarrow> run" where
  "load_tts s = (if tts (pipeline s) then s else s\<lparr>pipeline := (pipeline s)\<lparr>tts := True\<rparr>\<rparr>)"

definition load_intent_detector :: "run \<Rightarrow> run" where
  "load_intent_detector s =
     (if intent_detector (pipeline s) \<noteq> None then s
      else s\<lparr>pipeline := (pipeline s)\<lparr>intent_detector := Some (IntentDetector_init False)\<rparr>\<rparr>)"

text \<open>\<^verbatim>\<open>load_components\<close>: an exception of a loader is not caught.\<close>

definition load_components :: "engines \<Rightarrow> run \<Rightarrow> exn option \<times> run" where
  "load_components env s =
     (case load_asr env s of
        (Some e, s1) \<Rightarrow> (Some e, s1)
      | (None, s1) \<Rightarrow>
          (case load_translator env s1 of
             (Some e, s2) \<Rightarrow> (Some e, s2)
           | (None, s2) \<Rightarrow>
               (case load_llm env s2 of
                  (Some e, s3) \<Rightarrow> (Some e, s3)
                | (None, s3) \<Rightarrow>
                    (None,
                     if detect_intent (pipeline s3) then load_intent_detector (load_tts s3)
                     else load_tts s3))))"

subsection \<open>The six stages of \<open>process\<close>\<close>

record args =
  audio_path :: "string option"
  text_input :: "string option"
  input_language :: string
  output_audio_path :: "string option"

text \<open>The truth value of an optional text: \<open>None\<close> and the empty text are false.\<close>

definition given :: "string option \<Rightarrow> string option" where
  "given x = (case x of None \<Rightarrow> None | Some s \<Rightarrow> if s = [] then None else Some s)"

text \<open>
  A stage returns the exception it raises, if any, and the state it leaves. In the
  source every assignment to the record follows the last call of its stage that can
  raise, so a stage that raises leaves the record as it found it.
\<close>

definition stage1_asr :: "engines \<Rightarrow> args \<Rightarrow> run \<Rightarrow> exn option \<times> run" where
  "stage1_asr env a s =
     (case given (audio_path a) of
        Some path \<Rightarrow>
          (case now env s of (start, s1) \<Rightarrow>
             (case load_asr env s1 of
                (Some e, s2) \<Rightarrow> (Some e, s2)
              | (None, s2) \<Rightarrow>
                  (case whisper_transcribe env path of
                     Inl e \<Rightarrow> (Some e, record_call (Transcribe path) s2)
                   | Inr text \<Rightarrow>
                       (case now env (record_call (Transcribe path) s2) of (t, s3) \<Rightarrow>
                          (None, s3\<lparr>result := (result s3)
                                   \<lparr>malayalam_text := text,
                                    asr_time_ms := (t - start) * 1000\<rparr>\<rparr>)))))
      | None \<Rightarrow>
          (case given (text_input a) of
             Some text \<Rightarrow>
               (None, s\<lparr>result := (result s)\<lparr>malayalam_text := text, asr_time_ms := 0\<rparr>\<rparr>)
           | None \<Rightarrow>
               (Some (Exn ''Either audio_path or text_input must be provided''), s)))"

definition stage2_translate :: "engines \<Rightarrow> args \<Rightarrow> run \<Rightarrow> exn option \<times> run" where
  "stage2_translate env a s =
     (if input_language a = ''ml'' then
        (case now env s of (start, s1) \<Rightarrow>
           (case load_translator env s1 of
              (Some e, s2) \<Rightarrow> (Some e, s2)
            | (None, s2) \<Rightarrow>
                (case ml_to_en env (malayalam_text (result s2)) of
                   Inl e \<Rightarrow> (Some e, record_call (MlToEn (malayalam_text (result s2))) s2)
                 | Inr text \<Rightarrow>
                     (case now env (record_call (MlToEn (malayalam_text (result s2))) s2) of
                        (t, s3) \<Rightarrow>
                          (None, s3\<lparr>result := (result s3)
                                   \<lparr>english_text := text,
                                    translation_ml_en_time_ms := (t - start) * 1000\<rparr>\<rparr>)))))
      else (None, s\<lparr>result := (result s)
                      \<lparr>english_text := malayalam_text (result s),
                       translation_ml_en_time_ms := 0\<rparr>\<rparr>))"

text \<open>
  Stage 3 runs under \<^verbatim>\<open>if self.detect_intent and self._intent_detector\<close>; the
  construction of a missing detector is inside that branch, where the detector is never
  missing. The stage has no handler of its own: what \<open>detect\<close> raises leaves the
  stage, before the record is written.
\<close>

definition stage3_intent :: "engines \<Rightarrow> run \<Rightarrow> exn option \<times> run" where
  "stage3_intent env s =
     (case (if detect_intent (pipeline s) then intent_detector (pipeline s) else None) of
        Some d \<Rightarrow>
          (case detect (qwen env) d (malayalam_text (result s))
                  (Some (english_text (result s))) of
             (Inl e, d') \<Rightarrow>
               (Some e,
                record_call (Detect (malayalam_text (result s)) (english_text (result s)))
                  (s\<lparr>pipeline := (pipeline s)\<lparr>intent_detector := Some d'\<rparr>\<rparr>))
           | (Inr found, d') \<Rightarrow>
               (None,
                record_call (Detect (malayalam_text (result s)) (english_text (result s)))
                  (s\<lparr>pipeline := (pipeline s)\<lparr>intent_detector := Some d'\<rparr>,
                     result := (result s)
                       \<lparr>intent_type := value_of (type found),
                        intent_description := description found,
                        intent_confidence := confidence found,
                        intent_entities := entities found\<rparr>\<rparr>)))
      | None \<Rightarrow> (None, s))"

definition stage4_llm :: "engines \<Rightarrow> run \<Rightarrow> exn option \<times> run" where
  "stage4_llm env s =
     (case now env s of (start, s1) \<Rightarrow>
        (case load_llm env s1 of
           (Some e, s2) \<Rightarrow> (Some e, s2)
         | (None, s2) \<Rightarrow>
             (case llm (pipeline s2) of
                None \<Rightarrow> (Some (Exn ([CHR 0x27] @ ''NoneType'' @ [CHR 0x27] @ '' object has no attribute '' @ [CHR 0x27] @ ''chat'' @ [CHR 0x27])), s2)
              | Some q \<Rightarrow>
                  (case chat (qwen env) q (english_text (result s2)) 256 True of
                     (Inl e, q') \<Rightarrow>
                       (Some e,
                        record_call (Chat (english_text (result s2)))
                          (s2\<lparr>pipeline := (pipeline s2)\<lparr>llm := Some q'\<rparr>\<rparr>))
                   | (Inr llm_response, q') \<Rightarrow>
                       (case now env
                               (record_call (Chat (english_text (result s2)))
                                  (s2\<lparr>pipeline := (pipeline s2)\<lparr>llm := Some q'\<rparr>\<rparr>)) of
                          (t, s3) \<Rightarrow>
                            (None, s3\<lparr>result := (result s3)
                                     \<lparr>english_response := response_content llm_response,
                                      llm_time_ms := (t - start) * 1000\<rparr>\<rparr>))))))"

definition stage5_translate :: "engines \<Rightarrow> run \<Rightarrow> exn option \<times> run" where
  "stage5_translate env s =
     (case now env s of (start, s1) \<Rightarrow>
        (case load_translator env s1 of
           (Some e, s2) \<Rightarrow> (Some e, s2)
         | (None, s2) \<Rightarrow>
             (case en_to_ml env (english_response (result s2)) of
                Inl e \<Rightarrow> (Some e, record_call (EnToMl (english_response (result s2))) s2)
              | Inr text \<Rightarrow>
                  (case now env (record_call (EnToMl (english_response (result s2))) s2) of
                     (t, s3) \<Rightarrow>
                       (None, s3\<lparr>result := (result s3)
                                \<lparr>malayalam_response := text,
                                 translation_en_ml_time_ms := (t - start) * 1000\<rparr>\<rparr>)))))"

definition stage6_tts :: "engines \<Rightarrow> args \<Rightarrow> run \<Rightarrow> exn option \<times> run" where
  "stage6_tts env a s =
     (case now env s of (start, s1) \<Rightarrow>
        (let s2 = load_tts s1;
             c = Synthesize (malayalam_response (result s2)) ''ml'' (output_audio_path a)
         in case tts_synthesize env (tts_engine (pipeline s2))
                   (malayalam_response (result s2)) ''ml'' (output_audio_path a) of
              Inl e \<Rightarrow> (Some e, record_call c s2)
            | Inr sound \<Rightarrow>
                (case now env (record_call c s2) of (t, s3) \<Rightarrow>
                   (None, s3\<lparr>result := (result s3)
                            \<lparr>audio_output := Some sound,
                             tts_time_ms := (t - start) * 1000\<rparr>\<rparr>))))"

text \<open>The body of the \<open>try\<close>: the stages in order, up to the first that raises.\<close>

fun run_stages :: "(run \<Rightarrow> exn option \<times> run) list \<Rightarrow> run \<Rightarrow> exn option \<times> run" where
  "run_stages [] s = (None, s)"
| "run_stages (f # fs) s =
     (case f s of (Some e, s') \<Rightarrow> (Some e, s') | (None, s') \<Rightarrow> run_stages fs s')"

definition stages :: "engines \<Rightarrow> args \<Rightarrow> (run \<Rightarrow> exn option \<times> run) list" where
  "stages env a =
     [stage1_asr env a, stage2_translate env a, stage3_intent env,
      stage4_llm env, stage5_translate env, stage6_tts env a]"

text \<open>
  \<open>process\<close>: the record is created, the clock is read, the stages run inside the
  \<open>try\<close>, whose handler marks the record as failed with the text of the exception,
  and the total time is written.
\<close>

definition fresh_run :: "VoiceAssistantPipeline \<Rightarrow> args \<Rightarrow> run" where
  "fresh_run p a =
     \<lparr> result = PipelineResult_init (audio_path a), pipeline = p, trace = [], ticks = 0 \<rparr>"

definition process :: "engines \<Rightarrow> VoiceAssistantPipeline \<Rightarrow> args \<Rightarrow> run" where
  "process env p a =
     (case now env (fresh_run p a) of
        (total_start, s0) \<Rightarrow>
          (case run_stages (stages env a) s0 of
             (outcome, s1) \<Rightarrow>
               (case now env
                       (case outcome of
                          None \<Rightarrow> s1\<lparr>result := (result s1)\<lparr>success := True\<rparr>\<rparr>
                        | Some e \<Rightarrow>
                            s1\<lparr>result := (result s1)
                                 \<lparr>success := False, error := Some (str_of e)\<rparr>\<rparr>) of
                  (t, s2) \<Rightarrow>
                    s2\<lparr>result := (result s2)
                         \<lparr>total_time_ms := (t - total_start) * 1000\<rparr>\<rparr>)))"


definition clear_conversation :: "VoiceAssistantPipeline \<Rightarrow> VoiceAssistantPipeline" where
  "clear_conversation p =
     (case llm p of None \<Rightarrow> p | Some q \<Rightarrow> p\<lparr>llm := Some (clear_history q)\<rparr>)"

text \<open>The fields written by stage \<open>n\<close> and by the stages after it are at their defaults.\<close>

definition defaults_from :: "nat \<Rightarrow> PipelineResult \<Rightarrow> bool" where
  "defaults_from n r =
     ((n \<le> 1 \<longrightarrow> malayalam_text r = [] \<and> asr_time_ms r = 0)
      \<and> (n \<le> 2 \<longrightarrow> english_text r = [] \<and> translation_ml_en_time_ms r = 0)
      \<and> (n \<le> 3 \<longrightarrow> intent_type r = [] \<and> intent_description r = []
                     \<and> intent_confidence r = 0 \<and> intent_entities r = [])
      \<and> (n \<le> 4 \<longrightarrow> english_response r = [] \<and> llm_time_ms r = 0)
      \<and> (n \<le> 5 \<longrightarrow> malayalam_response r = [] \<and> translation_en_ml_time_ms r = 0)
      \<and> (n \<le> 6 \<longrightarrow> audio_output r = None \<and> tts_time_ms r = 0))"

text \<open>The record has not been touched by the handler of the \<open>try\<close> nor by the final
  assignments.\<close>

definition unmarked :: "run \<Rightarrow> bool" where
  "unmarked s = (success (result s) \<and> error (result s) = None \<and> total_time_ms (result s) = 0)"

text \<open>The calls that stage \<open>n\<close> makes.\<close>

fun stage_calls :: "nat \<Rightarrow> call \<Rightarrow> bool" where
  "stage_calls n LoadASR = (n = 1)"
| "stage_calls n (Transcribe path) = (n = 1)"
| "stage_calls n LoadTranslator = (n = 2 \<or> n = 5)"
| "stage_calls n (MlToEn text) = (n = 2)"
| "stage_calls n (Detect text english) = (n = 3)"
| "stage_calls n LoadLLM = (n = 4)"
| "stage_calls n (Chat text) = (n = 4)"
| "stage_calls n (EnToMl text) = (n = 5)"
| "stage_calls n (Synthesize text lang out_path) = (n = 6)"

text \<open>What a stage other than the third leaves alone in the orchestrator, and how the
  list of calls grows: by calls of stage \<open>n\<close> only.\<close>

definition extends :: "nat \<Rightarrow> run \<Rightarrow> run \<Rightarrow> bool" where
  "extends n s s' =
     (intent_detector (pipeline s') = intent_detector (pipeline s)
      \<and> (\<exists>cs. trace s' = trace s @ cs \<and> list_all (stage_calls n) cs))"

text \<open>The detector, if one is set, is without the model fallback: the only kind that
  the orchestrator builds.\<close>

definition keyword_only :: "VoiceAssistantPipeline \<Rightarrow> bool" where
  "keyword_only p = (case intent_detector p of None \<Rightarrow> True | Some d \<Rightarrow> \<not> use_llm d)"

text \<open>The four fields that stage 3 writes.\<close>

definition intent_fields :: "PipelineResult \<Rightarrow> string \<times> string \<times> real \<times> (string \<times> string) list" where
  "intent_fields r =
     (intent_type r, intent_description r, intent_confidence r, intent_entities r)"

text \<open>No detector is set, the intent fields are at their defaults and no call of
  stage 3 has been made.\<close>

definition intent_untouched :: "run \<Rightarrow> bool" where
  "intent_untouched s =
     (intent_detector (pipeline s) = None
      \<and> intent_fields (result s) = ([], [], 0, [])
      \<and> list_all (\<lambda>c. \<not> stage_calls 3 c) (trace s))"




section \<open>Collaborators used to instantiate the theorems\<close>

text \<open>A model library whose weights load and whose generation raises.\<close>

definition offline_engine :: llm_engine where
  "offline_engine =
     \<lparr> import_qwen = None, cuda_available = False, from_pretrained = (\<lambda>model_id. None),
       generate = (\<lambda>messages max_new_tokens. Inl (Exn ''generation failed'')) \<rparr>"

text \<open>A model library that answers every prompt with the same text.\<close>

definition fixed_reply_engine :: "string \<Rightarrow> llm_engine" where
  "fixed_reply_engine reply =
     \<lparr> import_qwen = None, cuda_available = False, from_pretrained = (\<lambda>model_id. None),
       generate = (\<lambda>messages max_new_tokens. Inr (reply, 1, 0)) \<rparr>"

text \<open>A model library whose weights cannot be loaded.\<close>

definition no_weights_engine :: llm_engine where
  "no_weights_engine =
     \<lparr> import_qwen = None, cuda_available = False, from_pretrained = (\<lambda>model_id. Some (Exn ''weights not found'')),
       generate = (\<lambda>messages max_new_tokens. Inr (''unused'', 0, 0)) \<rparr>"

text \<open>A tree whose package \<open>llm\<close> has no file exporting the wrapper's class, as a
  directory that holds \<open>qwen.py\<close> alone: the import raises, with the text Python gives
  it when the root package is \<open>src\<close>. The library behind it would answer.\<close>

definition unpackaged_engine :: llm_engine where
  "unpackaged_engine =
     \<lparr> import_qwen =
         Some (Exn (''cannot import name '' @ [CHR 0x27] @ ''QwenLLM'' @ [CHR 0x27]
                    @ '' from '' @ [CHR 0x27] @ ''src.llm'' @ [CHR 0x27]
                    @ '' (unknown location)'')),
       cuda_available = False, from_pretrained = (\<lambda>model_id. None),
       generate = (\<lambda>messages max_new_tokens. Inr (''Hello!'', 2, 0)) \<rparr>"

text \<open>Engines that always answer, around a given model library; the clock advances by
  one second at every reading.\<close>

definition demo_engines :: "llm_engine \<Rightarrow> engines" where
  "demo_engines eng =
     \<lparr> whisper_load = (\<lambda>msize dev. None),
       whisper_transcribe = (\<lambda>path. Inr ''namaskaram''),
       import_translation = None,
       translator_load = (\<lambda>dev. None),
       ml_to_en = (\<lambda>text. Inr (''en:'' @ text)),
       en_to_ml = (\<lambda>text. Inr (''ml:'' @ text)),
       qwen = eng,
       tts_synthesize = (\<lambda>backend text lang out_path. Inr (Samples [])),
       perf_counter = (\<lambda>n. real n) \<rparr>"

text \<open>A model library that raises on the intent classifier's prompt and answers every
  other prompt.\<close>

definition chat_only_engine :: llm_engine where
  "chat_only_engine =
     \<lparr> import_qwen = None, cuda_available = False, from_pretrained = (\<lambda>model_id. None),
       generate = (\<lambda>messages max_new_tokens.
          if map content (take 1 messages) = [INTENT_SYSTEM_PROMPT]
          then Inl (Exn ''generation failed'') else Inr (''Hello!'', 2, 0)) \<rparr>"

definition text_args :: "string \<Rightarrow> string \<Rightarrow> args" where
  "text_args text lang =
     \<lparr> audio_path = None, text_input = Some text, input_language = lang,
       output_audio_path = None \<rparr>"

definition default_pipeline :: VoiceAssistantPipeline where
  "default_pipeline = VoiceAssistantPipeline_init ''whisper'' ''base'' ''1.5b'' ''mms'' ''cuda'' True"





text \<open>Engines whose synthesis raises an exception that carries no message, as
  \<^verbatim>\<open>RuntimeError()\<close> does; everything before it answers.\<close>

definition mute_engines :: engines where
  "mute_engines =
     (demo_engines (fixed_reply_engine ''Hi there''))
       \<lparr>tts_synthesize := (\<lambda>backend text lang out_path. Inl (Exn []))\<rparr>"
section \<open>Bounded conversation history\<close>

lemma length_slice_from_neg:
  "0 < k \<Longrightarrow> length (slice_from (- k) xs) = min (length xs) (nat k)"
  by (auto simp: slice_from_def)

lemma slice_from_is_suffix: "suffix (slice_from i xs) xs"
  by (simp add: slice_from_def suffix_drop)

lemma remember_turn_bounded:
  "1 \<le> max_memory_messages q \<Longrightarrow>
   int (length (conversation_history (remember_turn q u r))) \<le> 2 * max_memory_messages q"
  by (auto simp: remember_turn_def Let_def slice_from_def)

lemma remember_turn_suffix:
  "suffix (conversation_history (remember_turn q u r))
     (conversation_history q @ [Message ''user'' u, Message ''assistant'' r])"
  by (simp add: remember_turn_def Let_def slice_from_is_suffix)


lemma load_model_keeps_limit:
  "load_model eng q = (out, x) \<Longrightarrow> max_memory_messages x = max_memory_messages q"
  by (auto simp: load_model_def split: option.splits if_splits)

lemma chat_remembered_bounded:
  assumes "1 \<le> max_memory_messages q"
    and "chat eng q u n True = (Inr r, q')"
  shows "int (length (conversation_history q')) \<le> 2 * max_memory_messages q
     \<and> max_memory_messages q' = max_memory_messages q"
proof -
  obtain out x where l: "(if model q then (None, q) else load_model eng q) = (out, x)"
    by (cases "if model q then (None, q) else load_model eng q")
  have m: "max_memory_messages x = max_memory_messages q"
    using l load_model_keeps_limit[of eng q out x] by (auto split: if_splits)
  obtain t where q': "q' = remember_turn x u t"
    using assms(2) l by (auto simp: chat_def split: option.splits sum.splits)
  have "int (length (conversation_history (remember_turn x u t))) \<le> 2 * max_memory_messages x"
    using remember_turn_bounded[of x u t] m assms(1) by simp
  moreover have "max_memory_messages (remember_turn x u t) = max_memory_messages x"
    by (simp add: remember_turn_def Let_def)
  ultimately show ?thesis using q' m by simp
qed

lemma clear_history_empty: "conversation_history (clear_history q) = []"
  by (simp add: clear_history_def)

text \<open>
  C9. The history is meant to hold at most \<open>2 * max_memory_messages\<close> messages after a
  remembered call. With \<open>max_memory_messages = 0\<close> the trimming slice is
  \<^verbatim>\<open>history[-0:]\<close>, the whole list: after one remembered call the history holds two
  messages, above the bound of zero.
\<close>

theorem chat_history_not_trimmed_at_zero:
  "conversation_history
     (snd (chat \<lparr> import_qwen = None, cuda_available = False, from_pretrained = (\<lambda>m. None),
                  generate = (\<lambda>ms n. Inr (''hi'', 1, 0)) \<rparr>
             (QwenLLM_init ''1.5b'' ''cpu'' None 0) ''hello'' 256 True))
   = [Message ''user'' ''hello'', Message ''assistant'' ''hi'']"
  by (simp add: chat_def load_model_def MODELS_def QwenLLM_init_def remember_turn_def
      slice_from_def Let_def)
section \<open>Keyword tier of the intent detector\<close>

lemma startswith_prefix: "startswith s p \<longleftrightarrow> prefix p s"
  by (auto simp: startswith_def prefix_def) (metis append_eq_conv_conj append_take_drop_id)

lemma contains_sublist: "contains s kw \<longleftrightarrow> sublist kw s"
proof (induction s)
  case Nil
  then show ?case by auto
next
  case (Cons c cs)
  then show ?case
    by (cases kw) (auto simp: startswith_prefix sublist_Cons_right)
qed

lemma score_sublist: "score s kws = length (filter (\<lambda>kw. sublist kw s) kws)"
  by (simp add: score_def contains_sublist[abs_def])

lemma max_key_decomp:
  "\<exists>pre v post. kv # rest = pre @ (max_key kv rest, v) # post
     \<and> (\<forall>(k', v') \<in> set pre. v' < v) \<and> (\<forall>(k', v') \<in> set post. v' \<le> v)"
proof (induction rest arbitrary: kv)
  case Nil
  obtain k v where kv: "kv = (k, v)" by (cases kv)
  show ?case unfolding kv by (rule exI[of _ "[]"], rule exI[of _ v], rule exI[of _ "[]"]) simp
next
  case (Cons x rest)
  obtain k v where kv: "kv = (k, v)" by (cases kv)
  obtain k' v' where x: "x = (k', v')" by (cases x)
  show ?case
  proof (cases "v' > v")
    case True
    from Cons.IH[of x] obtain pre w post where
      d: "x # rest = pre @ (max_key x rest, w) # post"
      and l: "\<forall>(k', v') \<in> set pre. v' < w" and r: "\<forall>(k', v') \<in> set post. v' \<le> w"
      by blast
    have "x \<in> set (pre @ (max_key x rest, w) # post)" using d by (metis list.set_intros(1))
    then have "v' \<le> w" using l r x by fastforce
    then have "v < w" using True by simp
    have mk: "max_key kv (x # rest) = max_key x rest" using True by (simp add: kv x)
    have "kv # x # rest = (kv # pre) @ (max_key kv (x # rest), w) # post"
      unfolding mk using d by simp
    moreover have "\<forall>(k', v') \<in> set (kv # pre). v' < w" using l \<open>v < w\<close> kv by simp
    ultimately show ?thesis using r by blast
  next
    case False
    from Cons.IH[of kv] obtain pre w post where
      d: "kv # rest = pre @ (max_key kv rest, w) # post"
      and l: "\<forall>(k', v') \<in> set pre. v' < w" and r: "\<forall>(k', v') \<in> set post. v' \<le> w"
      by blast
    have mk: "max_key kv (x # rest) = max_key kv rest" using False by (simp add: kv x)
    show ?thesis
    proof (cases pre)
      case Nil
      then have "kv = (max_key kv rest, w)" "post = rest" using d by auto
      then have "v = w" using kv by simp
      have "kv # x # rest = [] @ (max_key kv (x # rest), w) # (x # post)"
        unfolding mk using \<open>kv = (max_key kv rest, w)\<close> \<open>post = rest\<close> by simp
      moreover have "\<forall>(k', v') \<in> set (x # post). v' \<le> w"
        using r False \<open>v = w\<close> x by simp
      ultimately show ?thesis by (metis empty_iff empty_set)
    next
      case (Cons a pre')
      then have a: "a = kv" and rest: "rest = pre' @ (max_key kv rest, w) # post"
        using d by auto
      have "v < w" using l Cons a kv by simp
      have "kv # x # rest = (kv # x # pre') @ (max_key kv (x # rest), w) # post"
        unfolding mk using rest by simp
      moreover have "\<forall>(k', v') \<in> set (kv # x # pre'). v' < w"
        using l Cons a \<open>v < w\<close> False x kv by auto
      ultimately show ?thesis using r by blast
    qed
  qed
qed

lemma filter_map_decomp:
  "filter P (map f xs) = pre @ y # post \<Longrightarrow>
   \<exists>xpre x xpost. xs = xpre @ x # xpost \<and> f x = y \<and> P y
      \<and> filter P (map f xpre) = pre \<and> filter P (map f xpost) = post"
proof (induction xs arbitrary: pre)
  case Nil
  then show ?case by simp
next
  case (Cons a xs)
  show ?case
  proof (cases "P (f a)")
    case False
    then have "filter P (map f xs) = pre @ y # post" using Cons.prems by simp
    from Cons.IH[OF this] obtain xpre x xpost where
      "xs = xpre @ x # xpost" "f x = y" "P y"
      "filter P (map f xpre) = pre" "filter P (map f xpost) = post" by blast
    then have "a # xs = (a # xpre) @ x # xpost \<and> f x = y \<and> P y
      \<and> filter P (map f (a # xpre)) = pre \<and> filter P (map f xpost) = post"
      using False by simp
    then show ?thesis by blast
  next
    case True
    then have e: "f a # filter P (map f xs) = pre @ y # post" using Cons.prems by simp
    show ?thesis
    proof (cases pre)
      case Nil
      then have "a # xs = [] @ a # xs \<and> f a = y \<and> P y
        \<and> filter P (map f []) = pre \<and> filter P (map f xs) = post"
        using e True by auto
      then show ?thesis by blast
    next
      case (Cons b pre')
      then have b: "b = f a" and "filter P (map f xs) = pre' @ y # post" using e by auto
      from Cons.IH[OF this(2)] obtain xpre x xpost where
        "xs = xpre @ x # xpost" "f x = y" "P y"
        "filter P (map f xpre) = pre'" "filter P (map f xpost) = post" by blast
      then have "a # xs = (a # xpre) @ x # xpost \<and> f x = y \<and> P y
        \<and> filter P (map f (a # xpre)) = pre \<and> filter P (map f xpost) = post"
        using True Cons b by simp
      then show ?thesis by blast
    qed
  qed
qed

lemma keyword_detect_None:
  "keyword_detect t = None \<longleftrightarrow>
     (\<forall>(c, kws) \<in> set INTENT_PATTERNS. score (lower t) kws = 0)"
proof -
  have "keyword_detect t = None \<longleftrightarrow> scores (lower t) = []"
    by (simp add: keyword_detect_def split: list.splits)
  also have "\<dots> \<longleftrightarrow> (\<forall>(c, kws) \<in> set INTENT_PATTERNS. score (lower t) kws = 0)"
    by (auto simp: scores_def filter_empty_conv)
  finally show ?thesis .
qed

lemma keyword_detect_Some:
  assumes "keyword_detect t = Some c"
  shows "\<exists>pre kws post. INTENT_PATTERNS = pre @ (c, kws) # post
     \<and> 0 < score (lower t) kws
     \<and> (\<forall>(c', kws') \<in> set pre. score (lower t) kws' < score (lower t) kws)
     \<and> (\<forall>(c', kws') \<in> set post. score (lower t) kws' \<le> score (lower t) kws)"
proof -
  let ?f = "\<lambda>(intent_type, keywords). (intent_type, score (lower t) keywords)"
  let ?P = "\<lambda>(intent_type :: IntentType, s :: nat). s > 0"
  from assms obtain kv rest where sc: "scores (lower t) = kv # rest" and c: "c = max_key kv rest"
    by (auto simp: keyword_detect_def split: list.splits)
  from max_key_decomp[of kv rest] obtain pre v post where
    d: "kv # rest = pre @ (c, v) # post"
    and l: "\<forall>(k', v') \<in> set pre. v' < v" and r: "\<forall>(k', v') \<in> set post. v' \<le> v"
    unfolding c by blast
  have "filter ?P (map ?f INTENT_PATTERNS) = pre @ (c, v) # post"
    using sc d by (simp add: scores_def)
  from filter_map_decomp[OF this] obtain xpre x xpost where
    ip: "INTENT_PATTERNS = xpre @ x # xpost" and fx: "?f x = (c, v)" and pv: "?P (c, v)"
    and fpre: "filter ?P (map ?f xpre) = pre" and fpost: "filter ?P (map ?f xpost) = post"
    by blast
  obtain kws where x: "x = (c, kws)" and v: "v = score (lower t) kws"
    using fx by (cases x) auto
  have vpos: "0 < v" using pv by simp
  have "\<forall>(c', kws') \<in> set xpre. score (lower t) kws' < v"
  proof (clarify)
    fix c' kws' assume m: "(c', kws') \<in> set xpre"
    show "score (lower t) kws' < v"
    proof (cases "0 < score (lower t) kws'")
      case True
      then have "(c', score (lower t) kws') \<in> set (filter ?P (map ?f xpre))"
        using m by force
      then show ?thesis using l fpre by auto
    next
      case False
      then show ?thesis using vpos by simp
    qed
  qed
  moreover have "\<forall>(c', kws') \<in> set xpost. score (lower t) kws' \<le> v"
  proof (clarify)
    fix c' kws' assume m: "(c', kws') \<in> set xpost"
    show "score (lower t) kws' \<le> v"
    proof (cases "0 < score (lower t) kws'")
      case True
      then have "(c', score (lower t) kws') \<in> set (filter ?P (map ?f xpost))"
        using m by force
      then show ?thesis using r fpost by auto
    next
      case False
      then show ?thesis by simp
    qed
  qed
  ultimately show ?thesis using ip x v vpos by blast
qed

lemma lower_char_idem: "lower_char (lower_char c) = lower_char c"
  by (auto simp: lower_char_def Let_def)

lemma lower_idem: "lower (lower s) = lower s"
  by (simp add: lower_def lower_char_idem)

lemma keyword_detect_lower: "keyword_detect (lower s) = keyword_detect s"
  by (simp add: keyword_detect_def lower_idem)

lemma keyword_detect_in_table:
  assumes "keyword_detect t = Some c"
  shows "c \<in> fst ` set INTENT_PATTERNS"
proof -
  from keyword_detect_Some[OF assms] obtain pre kws post
    where "INTENT_PATTERNS = pre @ (c, kws) # post" by blast
  then have "(c, kws) \<in> set INTENT_PATTERNS" by (metis in_set_conv_decomp)
  then show ?thesis by force
qed

lemma table_categories:
  "c \<in> fst ` set INTENT_PATTERNS \<Longrightarrow>
   c \<noteq> UNKNOWN \<and> map_of descriptions c \<noteq> None"
  by (auto simp: INTENT_PATTERNS_def descriptions_def)

lemma detect_keyword_hit:
  assumes "keyword_detect (or_text e t) = Some c"
  shows "detect eng d t e =
     (Inr \<lparr> type = c, confidence = 0.8, entities = [], original_text = t,
            intent_english_text = or_text e t,
            description = the (map_of descriptions c) \<rparr>, d)"
proof -
  have k: "keyword_detect (lower (or_text e t)) = Some c"
    using assms by (simp add: keyword_detect_lower)
  have "c \<noteq> UNKNOWN" "map_of descriptions c \<noteq> None"
    using table_categories[OF keyword_detect_in_table[OF assms]] by simp_all
  then show ?thesis
    using k by (auto simp: detect_def Let_def get_intent_description_def)
qed

lemma keyword_detect_hello: "keyword_detect ''hello how are you'' = Some GREETING"
  by code_simp

text \<open>
  C6, as stated, breaks ties by the first-declared category of the taxonomy. The text
  \<open>what weather\<close> matches one keyword of WEATHER and one of QUESTION and nothing else;
  QUESTION is declared before WEATHER in the enumeration, and the detector returns
  WEATHER, which comes first in the keyword table.
\<close>

theorem keyword_tie_not_in_enum_order:
  "scores (lower ''what weather'') = [(WEATHER, 1), (QUESTION, 1)]
   \<and> takeWhile (\<lambda>c. c \<noteq> WEATHER) (map fst IntentType_members)
       = [GREETING, QUESTION, COMMAND, INFORMATION, TASK]
   \<and> keyword_detect ''what weather'' = Some WEATHER"
  by code_simp

text \<open>
  C6, amended. With \<open>a\<close> the text analysed (the English text when there is one, the
  original otherwise): the score of a category is the number of its keywords that are
  substrings of the lower-cased \<open>a\<close>; no category is returned exactly when every score
  is zero; the category returned has a positive score, strictly greater than that of
  every category before it in the keyword table and at least that of every category
  after it (the first of the highest in the order of the table: greeting, weather,
  time, reminder, calculation, question, command); \<open>detect\<close> then returns it with
  confidence 0.8, no entities and the description kept for it, raising nothing and
  leaving the detector unchanged. The text \<open>hello how are you\<close> gives greeting, 0.8.
\<close>

theorem keyword_detection_first_in_table:
  "(\<forall>(c, kws) \<in> set INTENT_PATTERNS.
      score (lower (or_text e t)) kws
        = length (filter (\<lambda>kw. sublist kw (lower (or_text e t))) kws))
   \<and> (keyword_detect (or_text e t) = None \<longleftrightarrow>
        (\<forall>(c, kws) \<in> set INTENT_PATTERNS. score (lower (or_text e t)) kws = 0))
   \<and> (\<forall>c. keyword_detect (or_text e t) = Some c \<longrightarrow>
        (\<exists>pre kws post. INTENT_PATTERNS = pre @ (c, kws) # post
           \<and> 0 < score (lower (or_text e t)) kws
           \<and> (\<forall>(c', kws') \<in> set pre.
                 score (lower (or_text e t)) kws' < score (lower (or_text e t)) kws)
           \<and> (\<forall>(c', kws') \<in> set post.
                 score (lower (or_text e t)) kws' \<le> score (lower (or_text e t)) kws))
        \<and> map_of descriptions c \<noteq> None
        \<and> detect eng d t e =
            (Inr \<lparr> type = c, confidence = 0.8, entities = [], original_text = t,
                   intent_english_text = or_text e t,
                   description = the (map_of descriptions c) \<rparr>, d))
   \<and> fst (detect eng d ''hello how are you'' None) =
        Inr \<lparr> type = GREETING, confidence = 0.8, entities = [],
              original_text = ''hello how are you'',
              intent_english_text = ''hello how are you'',
              description = ''User is greeting or starting a conversation'' \<rparr>"
proof (intro conjI allI impI)
  show "\<forall>(c, kws) \<in> set INTENT_PATTERNS.
      score (lower (or_text e t)) kws
        = length (filter (\<lambda>kw. sublist kw (lower (or_text e t))) kws)"
    by (simp add: score_sublist)
  show "keyword_detect (or_text e t) = None \<longleftrightarrow>
        (\<forall>(c, kws) \<in> set INTENT_PATTERNS. score (lower (or_text e t)) kws = 0)"
    by (rule keyword_detect_None)
  show "fst (detect eng d ''hello how are you'' None) =
        Inr \<lparr> type = GREETING, confidence = 0.8, entities = [],
              original_text = ''hello how are you'',
              intent_english_text = ''hello how are you'',
              description = ''User is greeting or starting a conversation'' \<rparr>"
    using detect_keyword_hit[of None "''hello how are you''" GREETING eng d]
      keyword_detect_hello
    by (simp add: or_text_def descriptions_def)
next
  fix c assume k: "keyword_detect (or_text e t) = Some c"
  show "\<exists>pre kws post. INTENT_PATTERNS = pre @ (c, kws) # post
           \<and> 0 < score (lower (or_text e t)) kws
           \<and> (\<forall>(c', kws') \<in> set pre.
                 score (lower (or_text e t)) kws' < score (lower (or_text e t)) kws)
           \<and> (\<forall>(c', kws') \<in> set post.
                 score (lower (or_text e t)) kws' \<le> score (lower (or_text e t)) kws)"
    by (rule keyword_detect_Some[OF k])
  show "map_of descriptions c \<noteq> None"
    using table_categories[OF keyword_detect_in_table[OF k]] by simp
  show "detect eng d t e =
            (Inr \<lparr> type = c, confidence = 0.8, entities = [], original_text = t,
                   intent_english_text = or_text e t,
                   description = the (map_of descriptions c) \<rparr>, d)"
    by (rule detect_keyword_hit[OF k])
qed

theorem keyword_detection_first_in_table_witness:
  "keyword_detect (or_text (Some ''Remind me at 5'') ''x'') = Some REMINDER
   \<and> detect offline_engine (IntentDetector_init False) ''x'' (Some ''Remind me at 5'') =
       (Inr \<lparr> type = REMINDER, confidence = 0.8, entities = [], original_text = ''x'',
              intent_english_text = ''Remind me at 5'',
              description = ''User wants to set a reminder or alarm'' \<rparr>,
        IntentDetector_init False)"
proof -
  have k: "keyword_detect (or_text (Some ''Remind me at 5'') ''x'') = Some REMINDER"
    by code_simp
  have d: "the (map_of descriptions REMINDER) = ''User wants to set a reminder or alarm''"
    by (simp add: descriptions_def)
  show ?thesis
    using keyword_detection_first_in_table
      [of "Some ''Remind me at 5''" "''x''" offline_engine "IntentDetector_init False"] k d
    by (simp add: or_text_def)
qed

section \<open>Model tier of the intent detector\<close>

lemma parse_line_general:
  "intent_label line = None \<Longrightarrow> \<exists>ents' descr'. parse_line (GENERAL, ents, descr) line = (GENERAL, ents', descr')"
  by (auto simp: parse_line_def intent_label_def Let_def split: option.splits)

lemma parse_lines_general:
  "\<forall>line \<in> set ls. intent_label line = None \<Longrightarrow>
   fst (foldl parse_line (GENERAL, ents, descr) ls) = GENERAL"
proof (induction ls arbitrary: ents descr)
  case Nil
  then show ?case by simp
next
  case (Cons l ls)
  then obtain ents' descr' where "parse_line (GENERAL, ents, descr) l = (GENERAL, ents', descr')"
    using parse_line_general[of l ents descr] by auto
  then show ?case using Cons by simp
qed

lemma parse_llm_response_confidence: "confidence (parse_llm_response r o1 e1) = 0.85"
  by (simp add: parse_llm_response_def split: prod.splits)

lemma parse_llm_response_general:
  "\<forall>line \<in> set (split_on (CHR 0x0A) (strip r)). intent_label line = None \<Longrightarrow>
   type (parse_llm_response r o1 e1) = GENERAL"
  using parse_lines_general[of "split_on (CHR 0x0A) (strip r)" "[]" "''General query''"]
  by (auto simp: parse_llm_response_def split: prod.splits)

lemma get_llm_cases:
  "get_llm eng d =
     (if intent_llm d = None \<and> use_llm d
      then (case import_qwen eng of
              Some ex \<Rightarrow> (Inl ex, d)
            | None \<Rightarrow>
                (Inr (Some (set_system_prompt (QwenLLM_init ''1.5b'' ''cuda'' None 10)
                              INTENT_SYSTEM_PROMPT)),
                 d\<lparr>intent_llm := Some (set_system_prompt
                                          (QwenLLM_init ''1.5b'' ''cuda'' None 10)
                                          INTENT_SYSTEM_PROMPT)\<rparr>))
      else (Inr (intent_llm d), d))"
  by (simp add: get_llm_def Let_def split: option.splits)

lemma get_llm_raises_iff:
  "(\<exists>ex d'. get_llm eng d = (Inl ex, d'))
     \<longleftrightarrow> intent_llm d = None \<and> use_llm d \<and> import_qwen eng \<noteq> None"
  by (auto simp: get_llm_cases split: option.splits)

lemma llm_detect_raises:
  "llm_detect eng d t a = (Inl ex, d') \<Longrightarrow> get_llm eng d = (Inl ex, d')"
  by (auto simp: llm_detect_def split: prod.splits sum.splits option.splits)

text \<open>What \<open>detect\<close> raises was raised by the import in \<^verbatim>\<open>_get_llm\<close>, on a detector
  with the model fallback and no wrapper yet, which it leaves as it was.\<close>

lemma detect_raises:
  assumes "detect eng d t e = (Inl ex, d')"
  shows "use_llm d \<and> intent_llm d = None \<and> import_qwen eng = Some ex \<and> d' = d
     \<and> keyword_detect (or_text e t) = None"
proof -
  have k: "keyword_detect (lower (or_text e t)) = None \<or> keyword_detect (lower (or_text e t)) = Some UNKNOWN"
    using assms by (auto simp: detect_def Let_def split: if_splits)
  have "keyword_detect (lower (or_text e t)) \<noteq> Some UNKNOWN"
    using table_categories[OF keyword_detect_in_table] by blast
  then have k': "keyword_detect (or_text e t) = None"
    using k by (simp add: keyword_detect_lower)
  have "use_llm d \<and> llm_detect eng d t (or_text e t) = (Inl ex, d')"
    using assms by (auto simp: detect_def Let_def split: if_splits)
  then have "use_llm d" and "get_llm eng d = (Inl ex, d')"
    using llm_detect_raises by blast+
  then show ?thesis using k'
    by (auto simp: get_llm_cases split: if_splits option.splits)
qed

lemma detect_returns:
  assumes "\<not> use_llm d \<or> intent_llm d \<noteq> None \<or> import_qwen eng = None"
  shows "\<exists>found d'. detect eng d t e = (Inr found, d')"
proof (cases "detect eng d t e")
  case (Pair out d')
  show ?thesis
  proof (cases out)
    case (Inl ex)
    then show ?thesis using detect_raises[of eng d t e ex d'] Pair assms by auto
  next
    case (Inr found)
    then show ?thesis using Pair by blast
  qed
qed

lemma detect_import_failure_escapes:
  assumes "keyword_detect (or_text e t) = None" and "use_llm d" and "intent_llm d = None"
    and "import_qwen eng = Some ex"
  shows "detect eng d t e = (Inl ex, d)"
proof -
  have k: "keyword_detect (lower (or_text e t)) = None"
    using assms(1) by (simp add: keyword_detect_lower)
  show ?thesis
    using k assms(2-4) by (simp add: detect_def Let_def llm_detect_def get_llm_cases)
qed

text \<open>
  The part of the model tier that is inside the \<open>try\<close>. When the keyword tier finds
  nothing, the model fallback is on and \<^verbatim>\<open>_get_llm\<close> gives a wrapper \<open>q\<close>: if its
  \<open>chat\<close> raises, in loading the weights or in generating, the result is the general
  intent with confidence 0.5 and the description \<open>General query\<close>; if it answers, the
  confidence is 0.85, and the intent is general whenever no line of the answer is an
  \<open>INTENT:\<close> line with a known label.
\<close>

lemma detect_model_failures_caught:
  assumes "keyword_detect (or_text e t) = None" and "use_llm d"
    and g: "get_llm eng d = (Inr (Some q), d1)"
  shows "case fst (chat eng q (classify_prompt (or_text e t)) 100 False) of
        Inl ex \<Rightarrow>
          fst (detect eng d t e) =
            Inr \<lparr> type = GENERAL, confidence = 0.5, entities = [], original_text = t,
                  intent_english_text = or_text e t, description = ''General query'' \<rparr>
      | Inr reply \<Rightarrow>
          (\<exists>found. fst (detect eng d t e) = Inr found \<and> confidence found = 0.85
             \<and> ((\<forall>line \<in> set (split_on (CHR 0x0A) (strip (response_content reply))).
                    intent_label line = None)
                  \<longrightarrow> type found = GENERAL))"
proof -
  have k: "keyword_detect (lower (or_text e t)) = None"
    using assms(1) by (simp add: keyword_detect_lower)
  have det: "detect eng d t e = llm_detect eng d t (or_text e t)"
    using k assms(2) by (simp add: detect_def Let_def)
  obtain out q' where c: "chat eng q (classify_prompt (or_text e t)) 100 False = (out, q')"
    by (cases "chat eng q (classify_prompt (or_text e t)) 100 False")
  show ?thesis
  proof (cases out)
    case (Inl ex)
    then have "fst (detect eng d t e) = Inr (general_query t (or_text e t))"
      using det g c by (simp add: llm_detect_def)
    then show ?thesis using c Inl by (simp add: general_query_def)
  next
    case (Inr reply)
    then have "fst (detect eng d t e)
        = Inr (parse_llm_response (response_content reply) t (or_text e t))"
      using det g c by (simp add: llm_detect_def)
    then show ?thesis
      using c Inr parse_llm_response_confidence parse_llm_response_general by simp
  qed
qed

text \<open>
  C7. \<open>detect\<close> is to let no exception escape, also during the lazy construction of the
  fallback model. \<^verbatim>\<open>_llm_detect\<close> calls \<^verbatim>\<open>_get_llm()\<close> before its \<open>try\<close>, and
  \<^verbatim>\<open>_get_llm\<close> imports the wrapper's class from the package \<open>llm\<close>. Where that import
  raises, as in a tree whose package \<open>llm\<close> does not export the class, the first call
  of \<open>detect\<close> on a text without keyword, here \<open>xyz\<close>, raises the import error instead
  of returning the general intent; the same detector returns the general intent with
  confidence 0.5 when it is the loading of the weights, inside the \<open>try\<close>, that raises.
\<close>

theorem detect_lets_import_error_escape:
  "detect unpackaged_engine (IntentDetector_init True) ''xyz'' None
     = (Inl (Exn (''cannot import name '' @ [CHR 0x27] @ ''QwenLLM'' @ [CHR 0x27]
                  @ '' from '' @ [CHR 0x27] @ ''src.llm'' @ [CHR 0x27]
                  @ '' (unknown location)'')),
        IntentDetector_init True)
   \<and> fst (detect no_weights_engine (IntentDetector_init True) ''xyz'' None)
       = Inr \<lparr> type = GENERAL, confidence = 0.5, entities = [], original_text = ''xyz'',
               intent_english_text = ''xyz'', description = ''General query'' \<rparr>"
proof -
  let ?d = "IntentDetector_init True"
  let ?q = "set_system_prompt (QwenLLM_init ''1.5b'' ''cuda'' None 10) INTENT_SYSTEM_PROMPT"
  have k: "keyword_detect (or_text None ''xyz'') = None" by code_simp
  have u: "use_llm ?d" "intent_llm ?d = None" by (simp_all add: IntentDetector_init_def)
  have o: "or_text None ''xyz'' = ''xyz''" by (simp add: or_text_def)
  have a: "detect unpackaged_engine ?d ''xyz'' None
      = (Inl (Exn (''cannot import name '' @ [CHR 0x27] @ ''QwenLLM'' @ [CHR 0x27]
                  @ '' from '' @ [CHR 0x27] @ ''src.llm'' @ [CHR 0x27]
                  @ '' (unknown location)'')), ?d)"
    by (rule detect_import_failure_escapes[OF k u]) (simp add: unpackaged_engine_def)
  have g: "get_llm no_weights_engine ?d = (Inr (Some ?q), ?d\<lparr>intent_llm := Some ?q\<rparr>)"
    by (simp add: get_llm_cases IntentDetector_init_def no_weights_engine_def)
  have c: "fst (chat no_weights_engine ?q (classify_prompt ''xyz'') 100 False)
      = Inl (Exn ''weights not found'')"
    by (simp add: chat_def load_model_def MODELS_def QwenLLM_init_def set_system_prompt_def
        no_weights_engine_def)
  have b: "fst (detect no_weights_engine ?d ''xyz'' None)
       = Inr \<lparr> type = GENERAL, confidence = 0.5, entities = [], original_text = ''xyz'',
               intent_english_text = ''xyz'', description = ''General query'' \<rparr>"
    using detect_model_failures_caught[OF k u(1) g] c o by simp
  show ?thesis using a b by simp
qed

section \<open>Aggregation of the handlers\<close>

lemma update_fresh: "k \<notin> fst ` set al \<Longrightarrow> AList.update k v al = al @ [(k, v)]"
  by (induction al) auto

lemma run_agent_user_input: "user_input (run_agent n s) = user_input s"
  by (simp add: run_agent_def run_info_agent_def run_task_agent_def run_chat_agent_def)

lemma run_agents_user_input: "user_input (foldl (\<lambda>s n. run_agent n s) st ns) = user_input st"
  by (induction ns rule: rev_induct) (simp_all add: run_agent_user_input)

lemma run_agent_fresh:
  assumes "n \<in> {''info_agent'', ''task_agent'', ''chat_agent''}"
    and "n \<notin> fst ` set (agent_outputs s)" and "agent_outputs st = []"
    and "user_input s = user_input st"
  shows "agent_outputs (run_agent n s) = agent_outputs s @ agent_outputs (run_agent n st)"
  using assms
  by (auto simp: run_agent_def run_info_agent_def run_task_agent_def run_chat_agent_def
      update_fresh)

lemma run_agent_keys:
  assumes "n \<in> {''info_agent'', ''task_agent'', ''chat_agent''}" and "agent_outputs st = []"
  shows "map fst (agent_outputs (run_agent n st)) = [n]"
  using assms
  by (auto simp: run_agent_def run_info_agent_def run_task_agent_def run_chat_agent_def)

lemma run_agents_outputs:
  assumes "agent_outputs st = []"
  shows "distinct ns \<Longrightarrow> set ns \<subseteq> {''info_agent'', ''task_agent'', ''chat_agent''} \<Longrightarrow>
     agent_outputs (foldl (\<lambda>s n. run_agent n s) st ns)
       = concat (map (\<lambda>n. agent_outputs (run_agent n st)) ns)
     \<and> map fst (agent_outputs (foldl (\<lambda>s n. run_agent n s) st ns)) = ns"
proof (induction ns rule: rev_induct)
  case Nil
  then show ?case using assms by simp
next
  case (snoc n ns)
  let ?s = "foldl (\<lambda>s n. run_agent n s) st ns"
  have d: "distinct ns" "set ns \<subseteq> {''info_agent'', ''task_agent'', ''chat_agent''}"
    using snoc.prems by simp_all
  note both = snoc.IH[OF d]
  note ih = both[THEN conjunct1] and keys = both[THEN conjunct2]
  have n: "n \<in> {''info_agent'', ''task_agent'', ''chat_agent''}" using snoc.prems by simp
  have "fst ` set (agent_outputs ?s) = set ns" using keys by (metis set_map)
  then have fresh: "n \<notin> fst ` set (agent_outputs ?s)" using snoc.prems by simp
  have step: "agent_outputs (run_agent n ?s) = agent_outputs ?s @ agent_outputs (run_agent n st)"
    by (rule run_agent_fresh[OF n fresh assms run_agents_user_input])
  show ?case using step ih keys run_agent_keys[OF n assms] by simp
qed

lemma responses_append: "responses (xs @ ys) = responses xs @ responses ys"
  by (simp add: responses_def)

lemma responses_concat: "responses (concat xss) = concat (map responses xss)"
  by (induction xss) (simp_all add: responses_append, simp add: responses_def)

lemma run_agent_response:
  assumes "n \<in> {''info_agent'', ''task_agent'', ''chat_agent''}" and "agent_outputs st = []"
  shows "\<exists>s. responses (agent_outputs (run_agent n st)) = [PStr s] \<and> s \<noteq> []"
  using assms
  by (auto simp: run_agent_def run_info_agent_def run_task_agent_def run_chat_agent_def
      responses_def)

lemma join_concat:
  "join sep ss = (case ss of [] \<Rightarrow> [] | t # ts \<Rightarrow> t @ concat (map (\<lambda>u. sep @ u) ts))"
  by (induction sep ss rule: join.induct) simp_all

lemma texts_from_strings: "texts_from i (map PStr ss) = Inr ss"
  by (induction ss arbitrary: i) simp_all

lemma texts_strings: "texts (map PStr ss) = Inr ss"
  by (simp add: texts_def texts_from_strings)

text \<open>The item that is not a text is named by its index and its type.\<close>

lemma texts_from_not_string:
  "\<forall>s. r \<noteq> PStr s \<Longrightarrow>
   texts_from i (map PStr ss @ r # rs) =
     Inl (Exn (''sequence item '' @ decimal (i + length ss) @ '': expected str instance, ''
               @ type_name r @ '' found''))"
proof (induction ss arbitrary: i)
  case Nil
  then show ?case by (cases r) simp_all
next
  case (Cons s ss)
  then show ?case by simp
qed

lemma texts_not_string:
  "texts [PStr ''a'', PBool False] =
     Inl (Exn ''sequence item 1: expected str instance, bool found'')"
  by code_simp

lemma generate_response_strings:
  assumes "responses (agent_outputs s) = map PStr ss"
  shows "generate_response s =
     Inr (s\<lparr>final_response := Some
            (case ss of
               [] \<Rightarrow> ''I couldn'' @ [CHR 0x27] @ ''t process your request.''
             | t # ts \<Rightarrow> t @ concat (map (\<lambda>u. '' '' @ u) ts))\<rparr>)"
proof (cases ss)
  case Nil
  then show ?thesis using assms by (simp add: generate_response_def)
next
  case (Cons t ts)
  have k: "(@) '' '' = (#) CHR '' ''" by (rule ext) simp
  have "join '' '' (t # ts) = t @ concat (map ((#) CHR '' '') ts)"
    using join_concat[of "'' ''" "t # ts"] by (simp add: k)
  then show ?thesis
    using assms Cons texts_strings[of "t # ts"] unfolding generate_response_def Let_def
    by (simp add: k)
qed

lemma run_agent_sentence:
  assumes "agent_outputs st = []"
  shows "responses (agent_outputs (run_agent ''info_agent'' st))
           = [PStr (''[Info Agent] Processing query: '' @ user_input st)]"
    and "responses (agent_outputs (run_agent ''task_agent'' st))
           = [PStr (''[Task Agent] Processing task request: '' @ user_input st)]"
    and "responses (agent_outputs (run_agent ''chat_agent'' st))
           = [PStr (''[Chat Agent] I understand you said: '' @ user_input st)]"
  using assms
  by (simp_all add: run_agent_def run_info_agent_def run_task_agent_def run_chat_agent_def
      responses_def)

lemma run_agents_strings:
  assumes "agent_outputs st = []"
  shows "set ns \<subseteq> {''info_agent'', ''task_agent'', ''chat_agent''} \<Longrightarrow>
     \<exists>ss. concat (map (\<lambda>n. responses (agent_outputs (run_agent n st))) ns) = map PStr ss
        \<and> length ss = length ns"
proof (induction ns)
  case Nil
  then show ?case by simp
next
  case (Cons n ns)
  then obtain ss where
    ss: "concat (map (\<lambda>n. responses (agent_outputs (run_agent n st))) ns) = map PStr ss"
    and len: "length ss = length ns" by auto
  have "n \<in> {''info_agent'', ''task_agent'', ''chat_agent''}" using Cons.prems by simp
  from run_agent_response[OF this assms] obtain s where
    s: "responses (agent_outputs (run_agent n st)) = [PStr s]" by blast
  have "concat (map (\<lambda>n. responses (agent_outputs (run_agent n st))) (n # ns))
      = map PStr (s # ss) \<and> length (s # ss) = length (n # ns)"
    using ss len s by simp
  then show ?case by blast
qed

text \<open>
  C8. When handlers (each at most once) have run on a state that had no outputs, the
  responses read by the aggregate step are those of the handlers in the order of their
  invocation, each the sentence of its handler, and the final response is the first of
  them followed by each of the others after one space, or the fixed sentence when no
  handler ran. On any state whose fragments hold texts as responses, the aggregate step
  joins them in this way, in the order of the fragments, and gives the fixed sentence
  when there is none. Without the graph runtime, \<open>process\<close> succeeds and its response is
  the chat handler's sentence, which is never empty.
\<close>

theorem aggregate_joins_in_invocation_order:
  assumes "agent_outputs st = []" and "distinct ns"
    and "set ns \<subseteq> {''info_agent'', ''task_agent'', ''chat_agent''}"
  shows "responses (agent_outputs (foldl (\<lambda>s n. run_agent n s) st ns))
           = concat (map (\<lambda>n. responses (agent_outputs (run_agent n st))) ns)
     \<and> responses (agent_outputs (run_agent ''info_agent'' st))
           = [PStr (''[Info Agent] Processing query: '' @ user_input st)]
     \<and> responses (agent_outputs (run_agent ''task_agent'' st))
           = [PStr (''[Task Agent] Processing task request: '' @ user_input st)]
     \<and> responses (agent_outputs (run_agent ''chat_agent'' st))
           = [PStr (''[Chat Agent] I understand you said: '' @ user_input st)]
     \<and> (\<exists>ss. responses (agent_outputs (foldl (\<lambda>s n. run_agent n s) st ns)) = map PStr ss
           \<and> length ss = length ns
           \<and> generate_response (foldl (\<lambda>s n. run_agent n s) st ns) =
               Inr ((foldl (\<lambda>s n. run_agent n s) st ns)
                      \<lparr>final_response := Some
                         (case ss of
                            [] \<Rightarrow> ''I couldn'' @ [CHR 0x27] @ ''t process your request.''
                          | t # ts \<Rightarrow> t @ concat (map (\<lambda>u. '' '' @ u) ts))\<rparr>))
     \<and> (\<forall>ss. responses (agent_outputs s) = map PStr ss \<longrightarrow>
           generate_response s =
             Inr (s\<lparr>final_response := Some
                    (case ss of
                       [] \<Rightarrow> ''I couldn'' @ [CHR 0x27] @ ''t process your request.''
                     | t # ts \<Rightarrow> t @ concat (map (\<lambda>u. '' '' @ u) ts))\<rparr>))
     \<and> agent_process None input lang =
         Inr \<lparr> response = Some (''[Chat Agent] I understand you said: '' @ input),
               result_intent =
                 intent (classify_intent (initial_state input lang)),
               result_language = lang \<rparr>
     \<and> (\<forall>res. agent_process None input lang = Inr res \<longrightarrow>
           response res \<noteq> None \<and> response res \<noteq> Some [])"
proof (intro conjI)
  let ?s = "foldl (\<lambda>s n. run_agent n s) st ns"
  show r: "responses (agent_outputs ?s)
      = concat (map (\<lambda>n. responses (agent_outputs (run_agent n st))) ns)"
    using run_agents_outputs[OF assms] by (simp add: responses_concat comp_def)
  show "responses (agent_outputs (run_agent ''info_agent'' st))
           = [PStr (''[Info Agent] Processing query: '' @ user_input st)]"
    by (rule run_agent_sentence(1)[OF assms(1)])
  show "responses (agent_outputs (run_agent ''task_agent'' st))
           = [PStr (''[Task Agent] Processing task request: '' @ user_input st)]"
    by (rule run_agent_sentence(2)[OF assms(1)])
  show "responses (agent_outputs (run_agent ''chat_agent'' st))
           = [PStr (''[Chat Agent] I understand you said: '' @ user_input st)]"
    by (rule run_agent_sentence(3)[OF assms(1)])
  from run_agents_strings[OF assms(1) assms(3)] obtain ss where
    ss: "concat (map (\<lambda>n. responses (agent_outputs (run_agent n st))) ns) = map PStr ss"
    and len: "length ss = length ns" by blast
  have rs: "responses (agent_outputs ?s) = map PStr ss" using r ss by simp
  show "\<exists>ss. responses (agent_outputs ?s) = map PStr ss
           \<and> length ss = length ns
           \<and> generate_response ?s =
               Inr (?s\<lparr>final_response := Some
                         (case ss of
                            [] \<Rightarrow> ''I couldn'' @ [CHR 0x27] @ ''t process your request.''
                          | t # ts \<Rightarrow> t @ concat (map (\<lambda>u. '' '' @ u) ts))\<rparr>)"
    using rs len generate_response_strings[OF rs] by blast
  show "\<forall>ss. responses (agent_outputs s) = map PStr ss \<longrightarrow>
           generate_response s =
             Inr (s\<lparr>final_response := Some
                    (case ss of
                       [] \<Rightarrow> ''I couldn'' @ [CHR 0x27] @ ''t process your request.''
                     | t # ts \<Rightarrow> t @ concat (map (\<lambda>u. '' '' @ u) ts))\<rparr>)"
    using generate_response_strings by blast
  show "agent_process None input lang =
         Inr \<lparr> response = Some (''[Chat Agent] I understand you said: '' @ input),
               result_intent =
                 intent (classify_intent (initial_state input lang)),
               result_language = lang \<rparr>"
    by (simp add: agent_process_def initial_state_def classify_intent_def run_chat_agent_def
        generate_response_def responses_def texts_def Let_def)
  then show "\<forall>res. agent_process None input lang = Inr res \<longrightarrow>
           response res \<noteq> None \<and> response res \<noteq> Some []"
    by auto
qed

theorem aggregate_joins_in_invocation_order_witness:
  "agent_outputs (initial_state ''hi'' ''en'') = []
   \<and> distinct [''task_agent'', ''chat_agent'']
   \<and> set [''task_agent'', ''chat_agent''] \<subseteq> {''info_agent'', ''task_agent'', ''chat_agent''}
   \<and> responses (agent_outputs (foldl (\<lambda>s n. run_agent n s) (initial_state ''hi'' ''en'')
                                   [''task_agent'', ''chat_agent'']))
       = [PStr ''[Task Agent] Processing task request: hi'',
          PStr ''[Chat Agent] I understand you said: hi'']
   \<and> generate_response (foldl (\<lambda>s n. run_agent n s) (initial_state ''hi'' ''en'')
                            [''task_agent'', ''chat_agent''])
       = Inr ((foldl (\<lambda>s n. run_agent n s) (initial_state ''hi'' ''en'')
                 [''task_agent'', ''chat_agent''])
                \<lparr>final_response := Some
                   ''[Task Agent] Processing task request: hi [Chat Agent] I understand you said: hi''\<rparr>)
   \<and> (\<exists>res. agent_process None ''hi'' ''en'' = Inr res
          \<and> response res = Some ''[Chat Agent] I understand you said: hi'')"
proof -
  let ?st = "initial_state ''hi'' ''en''"
  let ?S = "foldl (\<lambda>s n. run_agent n s) ?st [''task_agent'', ''chat_agent'']"
  have a: "agent_outputs ?st = []"
    by (simp add: initial_state_def)
  have b: "distinct [''task_agent'', ''chat_agent'']" by simp
  have c: "set [''task_agent'', ''chat_agent'']
      \<subseteq> {''info_agent'', ''task_agent'', ''chat_agent''}" by simp
  have u: "user_input ?st = ''hi''" by (simp add: initial_state_def)
  note t = aggregate_joins_in_invocation_order[OF a b c, of ?S "''hi''" "''en''"]
  have r: "responses (agent_outputs ?S)
      = [PStr ''[Task Agent] Processing task request: hi'',
         PStr ''[Chat Agent] I understand you said: hi'']"
    using t[THEN conjunct1] t[THEN conjunct2, THEN conjunct2, THEN conjunct1]
      t[THEN conjunct2, THEN conjunct2, THEN conjunct2, THEN conjunct1] u
    by simp
  then have r': "responses (agent_outputs ?S)
      = map PStr [''[Task Agent] Processing task request: hi'',
                  ''[Chat Agent] I understand you said: hi'']"
    by simp
  have "\<forall>ss. responses (agent_outputs ?S) = map PStr ss \<longrightarrow>
           generate_response ?S =
             Inr (?S\<lparr>final_response := Some
                    (case ss of
                       [] \<Rightarrow> ''I couldn'' @ [CHR 0x27] @ ''t process your request.''
                     | t # ts \<Rightarrow> t @ concat (map (\<lambda>u. '' '' @ u) ts))\<rparr>)"
    using t by blast
  from this[rule_format, OF r']
  have g: "generate_response ?S
       = Inr (?S\<lparr>final_response := Some
                   ''[Task Agent] Processing task request: hi [Chat Agent] I understand you said: hi''\<rparr>)"
    by simp
  have "agent_process None ''hi'' ''en'' =
         Inr \<lparr> response = Some (''[Chat Agent] I understand you said: '' @ ''hi''),
               result_intent = intent (classify_intent (initial_state ''hi'' ''en'')),
               result_language = ''en'' \<rparr>"
    using t by blast
  then have p: "\<exists>res. agent_process None ''hi'' ''en'' = Inr res
          \<and> response res = Some ''[Chat Agent] I understand you said: hi''"
    by simp
  show ?thesis using a b c r g p by blast
qed

section \<open>Stages of the pipeline\<close>

lemma run_stages_fail_split:
  "run_stages fs s = (Some e, s') \<Longrightarrow>
   \<exists>k sb. k < length fs \<and> run_stages (take k fs) s = (None, sb) \<and> (fs ! k) sb = (Some e, s')"
proof (induction fs arbitrary: s)
  case Nil
  then show ?case by simp
next
  case (Cons f fs)
  obtain out s1 where f: "f s = (out, s1)" by (cases "f s")
  show ?case
  proof (cases out)
    case None
    then have "run_stages fs s1 = (Some e, s')" using Cons.prems f by simp
    from Cons.IH[OF this] obtain k sb where
      "k < length fs" "run_stages (take k fs) s1 = (None, sb)" "(fs ! k) sb = (Some e, s')"
      by blast
    then have "Suc k < length (f # fs) \<and> run_stages (take (Suc k) (f # fs)) s = (None, sb)
        \<and> ((f # fs) ! Suc k) sb = (Some e, s')"
      using f None by simp
    then show ?thesis by blast
  next
    case (Some e')
    then have "0 < length (f # fs) \<and> run_stages (take 0 (f # fs)) s = (None, s)
        \<and> ((f # fs) ! 0) s = (Some e, s')"
      using Cons.prems f by simp
    then show ?thesis by blast
  qed
qed

lemma run_stages_prefix_fail:
  "k < length fs \<Longrightarrow> run_stages (take k fs) s = (None, sb) \<Longrightarrow> (fs ! k) sb = (Some e, sa)
   \<Longrightarrow> run_stages fs s = (Some e, sa)"
proof (induction fs arbitrary: s k)
  case Nil
  then show ?case by simp
next
  case (Cons f fs)
  show ?case
  proof (cases k)
    case 0
    then show ?thesis using Cons.prems by simp
  next
    case (Suc j)
    obtain out s1 where f: "f s = (out, s1)" by (cases "f s")
    have "out = None" using Cons.prems(2) Suc f by (cases out) simp_all
    then show ?thesis using Cons.prems Cons.IH[of j s1] Suc f by simp
  qed
qed

lemma stage3_fail: "stage3_intent env s = (Some e, s') \<Longrightarrow> result s' = result s"
  by (auto simp: stage3_intent_def record_call_def
      split: option.splits prod.splits sum.splits if_splits)

text \<open>What stage 3 raises was raised by \<open>detect\<close>, in the import of the model's
  wrapper, on a detector with the model fallback.\<close>

lemma stage3_raises:
  assumes "stage3_intent env s = (Some e, s')"
  shows "detect_intent (pipeline s) \<and> import_qwen (qwen env) = Some e
     \<and> (\<exists>d. intent_detector (pipeline s) = Some d \<and> use_llm d \<and> intent_llm d = None)"
proof -
  from assms obtain d d' where d: "detect_intent (pipeline s)"
    "intent_detector (pipeline s) = Some d"
    "detect (qwen env) d (malayalam_text (result s)) (Some (english_text (result s)))
       = (Inl e, d')"
    by (auto simp: stage3_intent_def split: option.splits prod.splits sum.splits if_splits)
  from detect_raises[OF d(3)] show ?thesis using d(1,2) by blast
qed

lemma stage3_completes:
  assumes "import_qwen (qwen env) = None \<or> keyword_only (pipeline s)"
  shows "fst (stage3_intent env s) = None"
proof (cases "stage3_intent env s")
  case (Pair out s')
  show ?thesis
  proof (cases out)
    case None
    then show ?thesis using Pair by simp
  next
    case (Some e)
    then show ?thesis using stage3_raises[of env s e s'] Pair assms
      by (auto simp: keyword_only_def)
  qed
qed

lemma load_asr_result: "result (snd (load_asr env s)) = result s"
  by (simp add: load_asr_def Let_def record_call_def)

lemma load_translator_result: "result (snd (load_translator env s)) = result s"
  by (simp add: load_translator_def Let_def record_call_def split: option.splits)

lemma load_llm_result: "result (snd (load_llm env s)) = result s"
  by (simp add: load_llm_def Let_def record_call_def split: prod.splits option.splits)



lemma now_result: "now env s = (t, s') \<Longrightarrow> result s' = result s"
  by (auto simp: now_def)

lemma load_asr_result': "load_asr env s = (out, s') \<Longrightarrow> result s' = result s"
  using load_asr_result[of env s] by simp

lemma load_translator_result': "load_translator env s = (out, s') \<Longrightarrow> result s' = result s"
  using load_translator_result[of env s] by simp

lemma load_llm_result': "load_llm env s = (out, s') \<Longrightarrow> result s' = result s"
  using load_llm_result[of env s] by simp

lemma load_tts_result: "result (load_tts s) = result s"
  by (simp add: load_tts_def)

lemma record_call_result: "result (record_call c s) = result s"
  by (simp add: record_call_def)

lemma stage1_fail: "stage1_asr env a s = (Some e, s') \<Longrightarrow> result s' = result s"
  unfolding stage1_asr_def
  by (auto simp: record_call_result split: option.splits prod.splits sum.splits
      dest!: now_result load_asr_result')


lemma stage2_fail: "stage2_translate env a s = (Some e, s') \<Longrightarrow> result s' = result s"
  unfolding stage2_translate_def
  by (auto simp: record_call_result split: option.splits prod.splits sum.splits if_splits
      dest!: now_result load_translator_result')

lemma stage4_fail: "stage4_llm env s = (Some e, s') \<Longrightarrow> result s' = result s"
  unfolding stage4_llm_def
  by (auto simp: record_call_result split: option.splits prod.splits sum.splits
      dest!: now_result load_llm_result')

lemma stage5_fail: "stage5_translate env s = (Some e, s') \<Longrightarrow> result s' = result s"
  unfolding stage5_translate_def
  by (auto simp: record_call_result split: option.splits prod.splits sum.splits
      dest!: now_result load_translator_result')

lemma stage6_fail: "stage6_tts env a s = (Some e, s') \<Longrightarrow> result s' = result s"
  unfolding stage6_tts_def
  by (auto simp: record_call_result load_tts_result Let_def
      split: option.splits prod.splits sum.splits dest!: now_result)

lemma stage1_frame:
  "stage1_asr env a s = (None, s') \<Longrightarrow>
   result s' = (result s)\<lparr>malayalam_text := malayalam_text (result s'),
                           asr_time_ms := asr_time_ms (result s')\<rparr>"
  unfolding stage1_asr_def
  by (auto simp: record_call_result split: option.splits prod.splits sum.splits
      dest!: now_result load_asr_result')

lemma stage2_frame:
  "stage2_translate env a s = (None, s') \<Longrightarrow>
   result s' = (result s)\<lparr>english_text := english_text (result s'),
       translation_ml_en_time_ms := translation_ml_en_time_ms (result s')\<rparr>"
  unfolding stage2_translate_def
  by (auto simp: record_call_result split: option.splits prod.splits sum.splits if_splits
      dest!: now_result load_translator_result')

lemma stage3_frame:
  "stage3_intent env s = (out, s') \<Longrightarrow>
   result s' = (result s)\<lparr>intent_type := intent_type (result s'),
       intent_description := intent_description (result s'),
       intent_confidence := intent_confidence (result s'),
       intent_entities := intent_entities (result s')\<rparr>"
  unfolding stage3_intent_def
  by (auto simp: record_call_result split: option.splits prod.splits sum.splits if_splits)

lemma stage4_frame:
  "stage4_llm env s = (None, s') \<Longrightarrow>
   result s' = (result s)\<lparr>english_response := english_response (result s'),
                           llm_time_ms := llm_time_ms (result s')\<rparr>"
  unfolding stage4_llm_def
  by (auto simp: record_call_result split: option.splits prod.splits sum.splits
      dest!: now_result load_llm_result')

lemma stage5_frame:
  "stage5_translate env s = (None, s') \<Longrightarrow>
   result s' = (result s)\<lparr>malayalam_response := malayalam_response (result s'),
       translation_en_ml_time_ms := translation_en_ml_time_ms (result s')\<rparr>"
  unfolding stage5_translate_def
  by (auto simp: record_call_result split: option.splits prod.splits sum.splits
      dest!: now_result load_translator_result')

lemma stage6_frame:
  "stage6_tts env a s = (None, s') \<Longrightarrow>
   result s' = (result s)\<lparr>audio_output := audio_output (result s'),
                           tts_time_ms := tts_time_ms (result s')\<rparr>"
  unfolding stage6_tts_def
  by (auto simp: record_call_result load_tts_result Let_def
      split: option.splits prod.splits sum.splits dest!: now_result)


lemma stage1_later:
  assumes "stage1_asr env a s = (None, s')" and "1 < n" and "defaults_from n (result s)"
  shows "defaults_from n (result s')"
  by (subst stage1_frame[OF assms(1)]) (use assms(2,3) in \<open>simp add: defaults_from_def\<close>)

lemma stage2_later:
  assumes "stage2_translate env a s = (None, s')" and "2 < n" and "defaults_from n (result s)"
  shows "defaults_from n (result s')"
  by (subst stage2_frame[OF assms(1)]) (use assms(2,3) in \<open>simp add: defaults_from_def\<close>)

lemma stage3_later:
  assumes "stage3_intent env s = (None, s')" and "3 < n" and "defaults_from n (result s)"
  shows "defaults_from n (result s')"
  by (subst stage3_frame[OF assms(1)]) (use assms(2,3) in \<open>simp add: defaults_from_def\<close>)

lemma stage4_later:
  assumes "stage4_llm env s = (None, s')" and "4 < n" and "defaults_from n (result s)"
  shows "defaults_from n (result s')"
  by (subst stage4_frame[OF assms(1)]) (use assms(2,3) in \<open>simp add: defaults_from_def\<close>)

lemma stage5_later:
  assumes "stage5_translate env s = (None, s')" and "5 < n" and "defaults_from n (result s)"
  shows "defaults_from n (result s')"
  by (subst stage5_frame[OF assms(1)]) (use assms(2,3) in \<open>simp add: defaults_from_def\<close>)

lemma run_stages_Cons_None:
  "run_stages (f # fs) s = (None, sb) \<Longrightarrow> \<exists>s1. f s = (None, s1) \<and> run_stages fs s1 = (None, sb)"
  by (cases "f s") (auto split: option.splits)

lemma fresh_defaults: "defaults_from n (result (snd (now env (fresh_run p a))))"
  by (simp add: now_def fresh_run_def PipelineResult_init_def defaults_from_def)

lemma run_stages_Nil_None: "run_stages [] s = (None, sb) \<Longrightarrow> sb = s"
  by simp

lemma prefix_defaults:
  assumes "n \<in> {1, 2, 3, 4, 5, 6}"
    and "run_stages (take (n - 1) (stages env a)) s = (None, sb)"
    and "defaults_from n (result s)"
  shows "defaults_from n (result sb)"
proof -
  consider "n = 1" | "n = 2" | "n = 4" | "n = 5" | "n = 6" | "n = 3" using assms(1) by auto
  then show ?thesis
  proof cases
    case 1
    then show ?thesis using assms by (simp add: stages_def)
  next
    case 2
    then have "run_stages [stage1_asr env a] s = (None, sb)"
      using assms(2) by (simp add: stages_def del: run_stages.simps)
    then have "stage1_asr env a s = (None, sb)"
      by (auto dest!: run_stages_Cons_None run_stages_Nil_None simp del: run_stages.simps)
    then show ?thesis using stage1_later assms(3) 2 by simp
  next
    case 6
    then have "run_stages [stage1_asr env a, stage2_translate env a] s = (None, sb)"
      using assms(2) by (simp add: stages_def del: run_stages.simps)
    then obtain s1 where st: "stage1_asr env a s = (None, s1)"
      "stage2_translate env a s1 = (None, sb)"
      by (auto dest!: run_stages_Cons_None run_stages_Nil_None simp del: run_stages.simps)
    have "defaults_from 3 (result s1)" using stage1_later[OF st(1)] assms(3) 6 by simp
    then show ?thesis using stage2_later[OF st(2)] 6 by simp
  next
    case 3
    then have "run_stages [stage1_asr env a, stage2_translate env a, stage3_intent env] s
        = (None, sb)"
      using assms(2) by (simp add: stages_def del: run_stages.simps)
    then obtain s1 s2 where st: "stage1_asr env a s = (None, s1)"
      "stage2_translate env a s1 = (None, s2)" "stage3_intent env s2 = (None, sb)"
      by (auto dest!: run_stages_Cons_None run_stages_Nil_None simp del: run_stages.simps)
    have "defaults_from 4 (result s1)" using stage1_later[OF st(1)] assms(3) 3 by simp
    then have "defaults_from 4 (result s2)" using stage2_later[OF st(2)] by simp
    then show ?thesis using stage3_later[OF st(3)] 3 by simp
  next
    case 4
    then have "run_stages [stage1_asr env a, stage2_translate env a, stage3_intent env,
        stage4_llm env] s = (None, sb)"
      using assms(2) by (simp add: stages_def del: run_stages.simps)
    then obtain s1 s2 s3 where st: "stage1_asr env a s = (None, s1)"
      "stage2_translate env a s1 = (None, s2)" "stage3_intent env s2 = (None, s3)"
      "stage4_llm env s3 = (None, sb)"
      by (auto dest!: run_stages_Cons_None run_stages_Nil_None simp del: run_stages.simps)
    have "defaults_from 5 (result s1)" using stage1_later[OF st(1)] assms(3) 4 by simp
    then have "defaults_from 5 (result s2)" using stage2_later[OF st(2)] by simp
    then have "defaults_from 5 (result s3)" using stage3_later[OF st(3)] by simp
    then show ?thesis using stage4_later[OF st(4)] 4 by simp
  next
    case 5
    then have "run_stages [stage1_asr env a, stage2_translate env a, stage3_intent env,
        stage4_llm env, stage5_translate env] s = (None, sb)"
      using assms(2) by (simp add: stages_def del: run_stages.simps)
    then obtain s1 s2 s3 s4 where st: "stage1_asr env a s = (None, s1)"
      "stage2_translate env a s1 = (None, s2)" "stage3_intent env s2 = (None, s3)"
      "stage4_llm env s3 = (None, s4)" "stage5_translate env s4 = (None, sb)"
      by (auto dest!: run_stages_Cons_None run_stages_Nil_None simp del: run_stages.simps)
    have "defaults_from 6 (result s1)" using stage1_later[OF st(1)] assms(3) 5 by simp
    then have "defaults_from 6 (result s2)" using stage2_later[OF st(2)] by simp
    then have "defaults_from 6 (result s3)" using stage3_later[OF st(3)] by simp
    then have "defaults_from 6 (result s4)" using stage4_later[OF st(4)] by simp
    then show ?thesis using stage5_later[OF st(5)] 5 by simp
  qed
qed

lemma nth_stage_fail:
  assumes "n \<in> {1, 2, 3, 4, 5, 6}" and "(stages env a ! (n - 1)) sb = (Some e, sa)"
  shows "result sa = result sb"
proof -
  consider "n = 1" | "n = 2" | "n = 4" | "n = 5" | "n = 6" | "n = 3" using assms(1) by auto
  then show ?thesis
  proof cases
    case 6 then show ?thesis using assms(2) stage3_fail by (simp add: stages_def)
  next
    case 1 then show ?thesis using assms(2) stage1_fail by (simp add: stages_def)
  next
    case 2 then show ?thesis using assms(2) stage2_fail by (simp add: stages_def)
  next
    case 3 then show ?thesis using assms(2) stage4_fail by (simp add: stages_def)
  next
    case 4 then show ?thesis using assms(2) stage5_fail by (simp add: stages_def)
  next
    case 5 then show ?thesis using assms(2) stage6_fail by (simp add: stages_def)
  qed
qed

lemma process_failed:
  assumes "run_stages (stages env a) (snd (now env (fresh_run p a))) = (Some e, sa)"
  shows "process env p a =
     sa\<lparr>result := (result sa)\<lparr>success := False, error := Some (str_of e),
            total_time_ms := (perf_counter env (ticks sa) - perf_counter env 0) * 1000\<rparr>,
        ticks := Suc (ticks sa)\<rparr>"
  using assms by (simp add: process_def now_def fresh_run_def)

lemma process_succeeded:
  assumes "run_stages (stages env a) (snd (now env (fresh_run p a))) = (None, sa)"
  shows "process env p a =
     sa\<lparr>result := (result sa)\<lparr>success := True,
            total_time_ms := (perf_counter env (ticks sa) - perf_counter env 0) * 1000\<rparr>,
        ticks := Suc (ticks sa)\<rparr>"
  using assms by (simp add: process_def now_def fresh_run_def)

lemma run_stages_invariant:
  "(\<forall>f \<in> set fs. \<forall>s out s'. f s = (out, s') \<longrightarrow> P s \<longrightarrow> P s') \<Longrightarrow>
   run_stages fs s = (out, s') \<Longrightarrow> P s \<Longrightarrow> P s'"
proof (induction fs arbitrary: s)
  case Nil
  then show ?case by simp
next
  case (Cons f fs)
  obtain o1 s1 where f: "f s = (o1, s1)" by (cases "f s")
  have p1: "P s1" using Cons.prems(1,3) f by auto
  have rest: "\<forall>f \<in> set fs. \<forall>s out s'. f s = (out, s') \<longrightarrow> P s \<longrightarrow> P s'"
    using Cons.prems(1) by simp
  show ?case
  proof (cases o1)
    case None
    then have "run_stages fs s1 = (out, s')" using Cons.prems(2) f by simp
    then show ?thesis using Cons.IH[OF rest _ p1] by simp
  next
    case (Some e)
    then show ?thesis using Cons.prems(2) f p1 by simp
  qed
qed

lemma unmarked_eq: "result s' = result s \<Longrightarrow> unmarked s \<Longrightarrow> unmarked s'"
  by (simp add: unmarked_def)

lemma stage1_unmarked: "stage1_asr env a s = (out, s') \<Longrightarrow> unmarked s \<Longrightarrow> unmarked s'"
  using stage1_fail[of env a s _ s'] arg_cong[OF stage1_frame[of env a s s'], of success]
    arg_cong[OF stage1_frame[of env a s s'], of error]
    arg_cong[OF stage1_frame[of env a s s'], of total_time_ms]
  by (cases out) (simp_all add: unmarked_def)


lemma now_extends: "now env s = (t, s') \<Longrightarrow> result s' = result s \<and> extends n s s'"
  by (auto simp: now_def extends_def)

lemma load_asr_extends:
  "load_asr env s = (out, s') \<Longrightarrow> result s' = result s \<and> extends 1 s s'"
  by (auto simp: load_asr_def Let_def record_call_def extends_def split: if_splits)

lemma load_translator_extends:
  "load_translator env s = (out, s') \<Longrightarrow> n = 2 \<or> n = 5 \<Longrightarrow>
   result s' = result s \<and> extends n s s'"
  by (auto simp: load_translator_def Let_def record_call_def extends_def
      split: if_splits option.splits)

lemma load_llm_extends:
  "load_llm env s = (out, s') \<Longrightarrow> result s' = result s \<and> extends 4 s s'"
  by (auto simp: load_llm_def Let_def record_call_def extends_def
      split: if_splits prod.splits option.splits)

lemma load_tts_simps:
  "result (load_tts s) = result s" "trace (load_tts s) = trace s"
  "intent_detector (pipeline (load_tts s)) = intent_detector (pipeline s)"
  by (simp_all add: load_tts_def)

lemma stage1_extends: "stage1_asr env a s = (out, s') \<Longrightarrow> extends 1 s s'"
  unfolding stage1_asr_def
  by (auto simp: extends_def record_call_def split: option.splits prod.splits sum.splits
      dest!: now_extends[where n = 1] load_asr_extends)

lemma stage2_extends:
  assumes "stage2_translate env a s = (out, s')"
  shows "extends 2 s s'"
proof (cases "input_language a = ''ml''")
  case True
  then show ?thesis
    using assms unfolding stage2_translate_def
    by (auto simp: extends_def record_call_def split: option.splits prod.splits sum.splits
        dest!: now_extends[where n = 2] load_translator_extends[where n = 2])
next
  case False
  then show ?thesis using assms by (auto simp: stage2_translate_def extends_def)
qed

lemma stage4_extends: "stage4_llm env s = (out, s') \<Longrightarrow> extends 4 s s'"
  unfolding stage4_llm_def
  by (auto simp: extends_def record_call_def split: option.splits prod.splits sum.splits
      dest!: now_extends[where n = 4] load_llm_extends)

lemma stage5_extends: "stage5_translate env s = (out, s') \<Longrightarrow> extends 5 s s'"
  unfolding stage5_translate_def
  by (auto simp: extends_def record_call_def split: option.splits prod.splits sum.splits
      dest!: now_extends[where n = 5] load_translator_extends[where n = 5])

lemma stage6_extends: "stage6_tts env a s = (out, s') \<Longrightarrow> extends 6 s s'"
  unfolding stage6_tts_def
  by (auto simp: extends_def record_call_def load_tts_simps Let_def
      split: option.splits prod.splits sum.splits
      dest!: now_extends[where n = 6])

lemma stage2_unmarked: "stage2_translate env a s = (out, s') \<Longrightarrow> unmarked s \<Longrightarrow> unmarked s'"
  using stage2_fail[of env a s _ s'] arg_cong[OF stage2_frame[of env a s s'], of success]
    arg_cong[OF stage2_frame[of env a s s'], of error]
    arg_cong[OF stage2_frame[of env a s s'], of total_time_ms]
  by (cases out) (simp_all add: unmarked_def)

lemma stage3_unmarked: "stage3_intent env s = (out, s') \<Longrightarrow> unmarked s \<Longrightarrow> unmarked s'"
  using arg_cong[OF stage3_frame[of env s out s'], of success]
    arg_cong[OF stage3_frame[of env s out s'], of error]
    arg_cong[OF stage3_frame[of env s out s'], of total_time_ms]
  by (simp add: unmarked_def)

lemma stage4_unmarked: "stage4_llm env s = (out, s') \<Longrightarrow> unmarked s \<Longrightarrow> unmarked s'"
  using stage4_fail[of env s _ s'] arg_cong[OF stage4_frame[of env s s'], of success]
    arg_cong[OF stage4_frame[of env s s'], of error]
    arg_cong[OF stage4_frame[of env s s'], of total_time_ms]
  by (cases out) (simp_all add: unmarked_def)

lemma stage5_unmarked: "stage5_translate env s = (out, s') \<Longrightarrow> unmarked s \<Longrightarrow> unmarked s'"
  using stage5_fail[of env s _ s'] arg_cong[OF stage5_frame[of env s s'], of success]
    arg_cong[OF stage5_frame[of env s s'], of error]
    arg_cong[OF stage5_frame[of env s s'], of total_time_ms]
  by (cases out) (simp_all add: unmarked_def)

lemma stage6_unmarked: "stage6_tts env a s = (out, s') \<Longrightarrow> unmarked s \<Longrightarrow> unmarked s'"
  using stage6_fail[of env a s _ s'] arg_cong[OF stage6_frame[of env a s s'], of success]
    arg_cong[OF stage6_frame[of env a s s'], of error]
    arg_cong[OF stage6_frame[of env a s s'], of total_time_ms]
  by (cases out) (simp_all add: unmarked_def)

lemma stages_unmarked:
  assumes "run_stages (stages env a) s = (out, s')" and "unmarked s"
  shows "unmarked s'"
proof (rule run_stages_invariant[where P = unmarked, OF _ assms])
  show "\<forall>f \<in> set (stages env a). \<forall>s out s'. f s = (out, s') \<longrightarrow> unmarked s \<longrightarrow> unmarked s'"
    using stage1_unmarked stage2_unmarked stage3_unmarked stage4_unmarked stage5_unmarked
      stage6_unmarked
    by (auto simp: stages_def)
qed

lemma fresh_unmarked: "unmarked (snd (now env (fresh_run p a)))"
  by (simp add: unmarked_def now_def fresh_run_def PipelineResult_init_def)

lemma length_stages: "length (stages env a) = 6"
  by (simp add: stages_def)

lemma stage3_skipped:
  "intent_detector (pipeline s) = None \<Longrightarrow> stage3_intent env s = (None, s)"
  by (simp add: stage3_intent_def)


lemma other_stage_calls: "stage_calls n c \<Longrightarrow> n \<noteq> 3 \<Longrightarrow> \<not> stage_calls 3 c"
  by (cases c) auto

lemma extends_no_detect:
  assumes "extends n s s'" and "n \<noteq> 3" and "list_all (\<lambda>c. \<not> stage_calls 3 c) (trace s)"
  shows "list_all (\<lambda>c. \<not> stage_calls 3 c) (trace s')"
proof -
  from assms(1) obtain cs where t: "trace s' = trace s @ cs" and c: "list_all (stage_calls n) cs"
    by (auto simp: extends_def)
  have "list_all (\<lambda>c. \<not> stage_calls 3 c) cs"
    using c other_stage_calls[OF _ assms(2)] by (auto simp: list_all_iff)
  then show ?thesis using t assms(3) by simp
qed

lemma stage1_intent_fields:
  "stage1_asr env a s = (out, s') \<Longrightarrow> intent_fields (result s') = intent_fields (result s)"
  using stage1_fail[of env a s _ s'] arg_cong[OF stage1_frame[of env a s s'], of intent_fields]
  by (cases out) (simp_all add: intent_fields_def)

lemma stage2_intent_fields:
  "stage2_translate env a s = (out, s') \<Longrightarrow> intent_fields (result s') = intent_fields (result s)"
  using stage2_fail[of env a s _ s'] arg_cong[OF stage2_frame[of env a s s'], of intent_fields]
  by (cases out) (simp_all add: intent_fields_def)

lemma stage4_intent_fields:
  "stage4_llm env s = (out, s') \<Longrightarrow> intent_fields (result s') = intent_fields (result s)"
  using stage4_fail[of env s _ s'] arg_cong[OF stage4_frame[of env s s'], of intent_fields]
  by (cases out) (simp_all add: intent_fields_def)

lemma stage5_intent_fields:
  "stage5_translate env s = (out, s') \<Longrightarrow> intent_fields (result s') = intent_fields (result s)"
  using stage5_fail[of env s _ s'] arg_cong[OF stage5_frame[of env s s'], of intent_fields]
  by (cases out) (simp_all add: intent_fields_def)

lemma stage6_intent_fields:
  "stage6_tts env a s = (out, s') \<Longrightarrow> intent_fields (result s') = intent_fields (result s)"
  using stage6_fail[of env a s _ s'] arg_cong[OF stage6_frame[of env a s s'], of intent_fields]
  by (cases out) (simp_all add: intent_fields_def)

lemma intent_untouched_step:
  assumes "extends n s s'" and "n \<noteq> 3"
    and "intent_fields (result s') = intent_fields (result s)" and "intent_untouched s"
  shows "intent_untouched s'"
  using assms extends_no_detect[OF assms(1,2)]
  by (simp add: intent_untouched_def extends_def)

lemma stages_intent_untouched:
  assumes "run_stages (stages env a) s = (out, s')" and "intent_untouched s"
  shows "intent_untouched s'"
proof (rule run_stages_invariant[where P = intent_untouched, OF _ assms])
  have 1: "\<And>s out s'. stage1_asr env a s = (out, s') \<Longrightarrow> intent_untouched s
      \<Longrightarrow> intent_untouched s'"
    using intent_untouched_step[OF stage1_extends _ stage1_intent_fields] by simp
  have 2: "\<And>s out s'. stage2_translate env a s = (out, s') \<Longrightarrow> intent_untouched s
      \<Longrightarrow> intent_untouched s'"
    using intent_untouched_step[OF stage2_extends _ stage2_intent_fields] by simp
  have 3: "\<And>s out s'. stage3_intent env s = (out, s') \<Longrightarrow> intent_untouched s
      \<Longrightarrow> intent_untouched s'"
    using stage3_skipped by (simp add: intent_untouched_def)
  have 4: "\<And>s out s'. stage4_llm env s = (out, s') \<Longrightarrow> intent_untouched s
      \<Longrightarrow> intent_untouched s'"
    using intent_untouched_step[OF stage4_extends _ stage4_intent_fields] by simp
  have 5: "\<And>s out s'. stage5_translate env s = (out, s') \<Longrightarrow> intent_untouched s
      \<Longrightarrow> intent_untouched s'"
    using intent_untouched_step[OF stage5_extends _ stage5_intent_fields] by simp
  have 6: "\<And>s out s'. stage6_tts env a s = (out, s') \<Longrightarrow> intent_untouched s
      \<Longrightarrow> intent_untouched s'"
    using intent_untouched_step[OF stage6_extends _ stage6_intent_fields] by simp
  show "\<forall>f \<in> set (stages env a). \<forall>s out s'. f s = (out, s') \<longrightarrow> intent_untouched s
      \<longrightarrow> intent_untouched s'"
    using 1 2 3 4 5 6 by (auto simp: stages_def)
qed

lemma process_final:
  assumes "run_stages (stages env a) (snd (now env (fresh_run p a))) = (out, sa)"
  shows "pipeline (process env p a) = pipeline sa \<and> trace (process env p a) = trace sa
     \<and> intent_fields (result (process env p a)) = intent_fields (result sa)"
proof (cases out)
  case None
  then show ?thesis using process_succeeded[of env a p sa] assms by (simp add: intent_fields_def)
next
  case (Some e)
  then show ?thesis using process_failed[of env a p e sa] assms by (simp add: intent_fields_def)
qed

















lemma failed_call_has_failing_stage:
  "success (result (process env p a))
   \<or> (\<exists>n \<in> {1, 2, 3, 4, 5, 6}. \<exists>e sb sa.
         run_stages (take (n - 1) (stages env a)) (snd (now env (fresh_run p a))) = (None, sb)
         \<and> (stages env a ! (n - 1)) sb = (Some e, sa))"
proof -
  obtain out sa where run: "run_stages (stages env a) (snd (now env (fresh_run p a))) = (out, sa)"
    by (cases "run_stages (stages env a) (snd (now env (fresh_run p a)))")
  show ?thesis
  proof (cases out)
    case None
    then show ?thesis using process_succeeded[of env a p sa] run by simp
  next
    case (Some e)
    have "run_stages (stages env a) (snd (now env (fresh_run p a))) = (Some e, sa)"
      using run Some by simp
    from run_stages_fail_split[OF this] obtain k sb where
      k: "k < 6" and pre: "run_stages (take k (stages env a)) (snd (now env (fresh_run p a))) = (None, sb)"
      and f: "(stages env a ! k) sb = (Some e, sa)"
      by (auto simp: length_stages)
    have "Suc k \<in> {1, 2, 3, 4, 5, 6}" using k by auto
    moreover have "run_stages (take (Suc k - 1) (stages env a)) (snd (now env (fresh_run p a))) = (None, sb)
              \<and> (stages env a ! (Suc k - 1)) sb = (Some e, sa)"
      using pre f by simp
    ultimately show ?thesis by blast
  qed
qed

lemma now_pipeline: "now env s = (t, s') \<Longrightarrow> pipeline s' = pipeline s"
  by (auto simp: now_def)

lemma load_asr_pipeline:
  "load_asr env s = (out, s') \<Longrightarrow> pipeline s' = (pipeline s)\<lparr>asr := asr (pipeline s')\<rparr>"
  by (auto simp: load_asr_def Let_def record_call_def split: if_splits)

lemma load_translator_pipeline:
  "load_translator env s = (out, s') \<Longrightarrow>
   pipeline s' = (pipeline s)\<lparr>translator := translator (pipeline s')\<rparr>"
  by (auto simp: load_translator_def Let_def record_call_def split: if_splits option.splits)

lemma stage1_pipeline:
  "stage1_asr env a s = (out, s') \<Longrightarrow> pipeline s' = (pipeline s)\<lparr>asr := asr (pipeline s')\<rparr>"
  unfolding stage1_asr_def
  by (auto simp: record_call_def split: option.splits prod.splits sum.splits
      dest!: now_pipeline load_asr_pipeline)

lemma stage2_pipeline:
  assumes "stage2_translate env a s = (out, s')"
  shows "pipeline s' = (pipeline s)\<lparr>translator := translator (pipeline s')\<rparr>"
proof (cases "input_language a = ''ml''")
  case True
  then show ?thesis
    using assms unfolding stage2_translate_def
    by (auto simp: record_call_def split: option.splits prod.splits sum.splits
        dest!: now_pipeline load_translator_pipeline)
next
  case False
  then show ?thesis using assms by (auto simp: stage2_translate_def)
qed

text \<open>The first two stages leave the detector of the orchestrator as it is.\<close>

lemma before_stage3_detector:
  assumes "run_stages (take 2 (stages env a)) s = (None, sb)"
  shows "intent_detector (pipeline sb) = intent_detector (pipeline s)
     \<and> detect_intent (pipeline sb) = detect_intent (pipeline s)"
proof -
  have "run_stages [stage1_asr env a, stage2_translate env a] s = (None, sb)"
    using assms by (simp add: stages_def numeral_2_eq_2 del: run_stages.simps)
  then obtain s1 where st: "stage1_asr env a s = (None, s1)"
    "stage2_translate env a s1 = (None, sb)"
    by (auto dest!: run_stages_Cons_None run_stages_Nil_None simp del: run_stages.simps)
  show ?thesis
    using arg_cong[OF stage1_pipeline[OF st(1)], of intent_detector]
      arg_cong[OF stage2_pipeline[OF st(2)], of intent_detector]
      arg_cong[OF stage1_pipeline[OF st(1)], of detect_intent]
      arg_cong[OF stage2_pipeline[OF st(2)], of detect_intent]
    by simp
qed

lemma failed_call_not_in_stage3:
  assumes "import_qwen (qwen env) = None \<or> keyword_only p"
  shows "success (result (process env p a))
   \<or> (\<exists>n \<in> {1, 2, 4, 5, 6}. \<exists>e sb sa.
         run_stages (take (n - 1) (stages env a)) (snd (now env (fresh_run p a))) = (None, sb)
         \<and> (stages env a ! (n - 1)) sb = (Some e, sa))"
proof -
  let ?s0 = "snd (now env (fresh_run p a))"
  obtain out sa where run: "run_stages (stages env a) ?s0 = (out, sa)"
    by (cases "run_stages (stages env a) ?s0")
  show ?thesis
  proof (cases out)
    case None
    then show ?thesis using process_succeeded[of env a p sa] run by simp
  next
    case (Some e)
    have "run_stages (stages env a) ?s0 = (Some e, sa)"
      using run Some by simp
    from run_stages_fail_split[OF this] obtain k sb where
      k: "k < 6" and pre: "run_stages (take k (stages env a)) ?s0 = (None, sb)"
      and f: "(stages env a ! k) sb = (Some e, sa)"
      by (auto simp: length_stages)
    have "k \<noteq> 2"
    proof
      assume k2: "k = 2"
      then have f3: "stage3_intent env sb = (Some e, sa)" using f by (simp add: stages_def)
      have "intent_detector (pipeline sb) = intent_detector p"
        using before_stage3_detector[of env a ?s0 sb] pre k2
        by (simp add: now_def fresh_run_def)
      then have "import_qwen (qwen env) = None \<or> keyword_only (pipeline sb)"
        using assms by (simp add: keyword_only_def)
      from stage3_completes[OF this] show False using f3 by simp
    qed
    then have "Suc k \<in> {1, 2, 4, 5, 6}" using k by auto
    moreover have "run_stages (take (Suc k - 1) (stages env a)) ?s0 = (None, sb)
              \<and> (stages env a ! (Suc k - 1)) sb = (Some e, sa)"
      using pre f by simp
    ultimately show ?thesis by blast
  qed
qed



lemma loaded_detector_is_called:
  "intent_fields
     (result (process (demo_engines (fixed_reply_engine ''Hi there''))
                (pipeline (snd (load_components (demo_engines (fixed_reply_engine ''Hi there''))
                                  (fresh_run default_pipeline (text_args [] ''en'')))))
                (text_args ''hello how are you'' ''en'')))
   = (''greeting'', ''User is greeting or starting a conversation'', 8 / 10, [])"
  by code_simp

subsection \<open>The translation of the reply\<close>
















section \<open>Containment of stage failures\<close>

text \<open>
  C1. \<open>process\<close> returns a record on every input. If the stages before stage \<open>n\<close>
  complete and stage \<open>n\<close> raises (\<open>n\<close> one of 1, 2, 4, 5, 6, and the same holds of
  stage 3), the call ends in the state that stage left, so no later stage runs; the
  record is the one the completed stages produced, with the success flag false, the
  text of the exception as error and the total time; in it the fields of stage \<open>n\<close>
  and of the later stages are at their defaults. A call that does not succeed has
  failed in this way; the stage that raised is one of 1, 2, 4, 5, 6 whenever the
  detector of the orchestrator is without the model fallback, or the import of the
  model's wrapper succeeds. (For \<open>n = 4\<close>: a failure of response generation leaves the
  recognized text and the translated input as stages 1 and 2 wrote them, and the reply,
  its translation and the audio at their defaults.)
\<close>

theorem process_contains_stage_failures:
  "(\<forall>n \<in> {1, 2, 3, 4, 5, 6}. \<forall>e sb sa.
      run_stages (take (n - 1) (stages env a)) (snd (now env (fresh_run p a))) = (None, sb)
      \<and> (stages env a ! (n - 1)) sb = (Some e, sa)
      \<longrightarrow> process env p a =
            sa\<lparr>result := (result sb)\<lparr>success := False, error := Some (str_of e),
                   total_time_ms := (perf_counter env (ticks sa) - perf_counter env 0) * 1000\<rparr>,
               ticks := Suc (ticks sa)\<rparr>
          \<and> defaults_from n (result sb))
   \<and> (success (result (process env p a))
        \<or> (\<exists>n \<in> {1, 2, 3, 4, 5, 6}. \<exists>e sb sa.
              run_stages (take (n - 1) (stages env a)) (snd (now env (fresh_run p a))) = (None, sb)
              \<and> (stages env a ! (n - 1)) sb = (Some e, sa)))
   \<and> (import_qwen (qwen env) = None \<or> keyword_only p \<longrightarrow>
        success (result (process env p a))
        \<or> (\<exists>n \<in> {1, 2, 4, 5, 6}. \<exists>e sb sa.
              run_stages (take (n - 1) (stages env a)) (snd (now env (fresh_run p a))) = (None, sb)
              \<and> (stages env a ! (n - 1)) sb = (Some e, sa)))"
proof (intro conjI ballI allI impI)
  fix n :: nat and e sb sa
  assume n: "n \<in> {1, 2, 3, 4, 5, 6}"
    and h: "run_stages (take (n - 1) (stages env a)) (snd (now env (fresh_run p a))) = (None, sb)
      \<and> (stages env a ! (n - 1)) sb = (Some e, sa)"
  have k: "n - 1 < length (stages env a)" using n by (auto simp: length_stages)
  have run: "run_stages (stages env a) (snd (now env (fresh_run p a))) = (Some e, sa)"
    using run_stages_prefix_fail[OF k] h by blast
  have same: "result sa = result sb" using nth_stage_fail[OF n] h by blast
  show "process env p a =
            sa\<lparr>result := (result sb)\<lparr>success := False, error := Some (str_of e),
                   total_time_ms := (perf_counter env (ticks sa) - perf_counter env 0) * 1000\<rparr>,
               ticks := Suc (ticks sa)\<rparr>"
    using process_failed[OF run] same by simp
  show "defaults_from n (result sb)"
    using prefix_defaults[OF n] h fresh_defaults by blast
next
  show "success (result (process env p a))
        \<or> (\<exists>n \<in> {1, 2, 3, 4, 5, 6}. \<exists>e sb sa.
              run_stages (take (n - 1) (stages env a)) (snd (now env (fresh_run p a))) = (None, sb)
              \<and> (stages env a ! (n - 1)) sb = (Some e, sa))"
    by (rule failed_call_has_failing_stage)
next
  assume "import_qwen (qwen env) = None \<or> keyword_only p"
  then show "success (result (process env p a))
        \<or> (\<exists>n \<in> {1, 2, 4, 5, 6}. \<exists>e sb sa.
              run_stages (take (n - 1) (stages env a)) (snd (now env (fresh_run p a))) = (None, sb)
              \<and> (stages env a ! (n - 1)) sb = (Some e, sa))"
    by (rule failed_call_not_in_stage3)
qed

theorem process_contains_stage_failures_witness:
  "malayalam_text (result (process (demo_engines offline_engine) default_pipeline
                             (text_args ''hello'' ''en''))) = ''hello''
   \<and> english_text (result (process (demo_engines offline_engine) default_pipeline
                             (text_args ''hello'' ''en''))) = ''hello''
   \<and> english_response (result (process (demo_engines offline_engine) default_pipeline
                             (text_args ''hello'' ''en''))) = []
   \<and> malayalam_response (result (process (demo_engines offline_engine) default_pipeline
                             (text_args ''hello'' ''en''))) = []
   \<and> audio_output (result (process (demo_engines offline_engine) default_pipeline
                             (text_args ''hello'' ''en''))) = None
   \<and> \<not> success (result (process (demo_engines offline_engine) default_pipeline
                             (text_args ''hello'' ''en'')))
   \<and> error (result (process (demo_engines offline_engine) default_pipeline
                             (text_args ''hello'' ''en''))) = Some ''generation failed''"
proof -
  let ?E = "demo_engines offline_engine"
  let ?A = "text_args ''hello'' ''en''"
  let ?s0 = "snd (now ?E (fresh_run default_pipeline ?A))"
  let ?sb = "snd (run_stages (take (4 - 1) (stages ?E ?A)) ?s0)"
  let ?sa = "snd ((stages ?E ?A ! (4 - 1)) ?sb)"
  have "fst (run_stages (take (4 - 1) (stages ?E ?A)) ?s0) = None" by code_simp
  then have h1: "run_stages (take (4 - 1) (stages ?E ?A)) ?s0 = (None, ?sb)"
    by (simp add: prod_eq_iff)
  have "fst ((stages ?E ?A ! (4 - 1)) ?sb) = Some (Exn ''generation failed'')" by code_simp
  then have h2: "(stages ?E ?A ! (4 - 1)) ?sb = (Some (Exn ''generation failed''), ?sa)"
    by (simp add: prod_eq_iff)
  have n: "(4::nat) \<in> {1, 2, 3, 4, 5, 6}" by simp
  have m: "malayalam_text (result ?sb) = ''hello''" "english_text (result ?sb) = ''hello''"
    by code_simp+
  from process_contains_stage_failures[of ?E ?A default_pipeline, THEN conjunct1,
      rule_format, OF n, of ?sb "Exn ''generation failed''" ?sa] h1 h2
  have p: "process ?E default_pipeline ?A =
            ?sa\<lparr>result := (result ?sb)\<lparr>success := False, error := Some ''generation failed'',
                   total_time_ms := (perf_counter ?E (ticks ?sa) - perf_counter ?E 0) * 1000\<rparr>,
               ticks := Suc (ticks ?sa)\<rparr>"
    and d: "defaults_from 4 (result ?sb)"
    by simp_all
  show ?thesis
    unfolding p using m d by (simp add: defaults_from_def)
qed

section \<open>The record returned by the pipeline\<close>

text \<open>
  C2, as stated, has a failed call carry a non-empty error. The handler records
  \<^verbatim>\<open>str(e)\<close>, which is empty for an exception raised without a message: when the
  synthesis raises such an exception, the call is marked failed and the error recorded
  is the empty text.
\<close>

theorem failed_call_with_empty_error:
  "\<not> success (result (process mute_engines default_pipeline (text_args ''hello'' ''en'')))
   \<and> error (result (process mute_engines default_pipeline (text_args ''hello'' ''en'')))
       = Some []"
  by code_simp

text \<open>
  C2, amended. In the record returned by \<open>process\<close> the success flag is false exactly
  when the error field is set, and true exactly when it is \<open>None\<close>. When a stage
  raised, the flag is false and the field holds the text of that exception, whatever
  it is; when none did, the flag is true and the field is \<open>None\<close>.
\<close>

theorem success_iff_error_set:
  "(success (result (process env p a)) \<longleftrightarrow> error (result (process env p a)) = None)
   \<and> (\<not> success (result (process env p a)) \<longleftrightarrow>
        (\<exists>message. error (result (process env p a)) = Some message))
   \<and> (case fst (run_stages (stages env a) (snd (now env (fresh_run p a)))) of
         None \<Rightarrow> success (result (process env p a))
                  \<and> error (result (process env p a)) = None
       | Some e \<Rightarrow> \<not> success (result (process env p a))
                    \<and> error (result (process env p a)) = Some (str_of e))"
proof -
  obtain out sa where run: "run_stages (stages env a) (snd (now env (fresh_run p a))) = (out, sa)"
    by (cases "run_stages (stages env a) (snd (now env (fresh_run p a)))")
  have u: "unmarked sa" using stages_unmarked[OF run fresh_unmarked] .
  show ?thesis
  proof (cases out)
    case None
    then show ?thesis using process_succeeded[of env a p sa] run u by (simp add: unmarked_def)
  next
    case (Some e)
    then show ?thesis using process_failed[of env a p e sa] run by simp
  qed
qed

theorem success_iff_error_set_witness:
  "fst (run_stages (stages (demo_engines offline_engine) (text_args ''hello'' ''en''))
          (snd (now (demo_engines offline_engine)
                  (fresh_run default_pipeline (text_args ''hello'' ''en'')))))
     = Some (Exn ''generation failed'')
   \<and> error (result (process (demo_engines offline_engine) default_pipeline
                    (text_args ''hello'' ''en''))) = Some ''generation failed''
   \<and> \<not> success (result (process (demo_engines offline_engine) default_pipeline
                           (text_args ''hello'' ''en'')))"
proof -
  have e: "fst (run_stages (stages (demo_engines offline_engine) (text_args ''hello'' ''en''))
          (snd (now (demo_engines offline_engine)
                  (fresh_run default_pipeline (text_args ''hello'' ''en'')))))
     = Some (Exn ''generation failed'')"
    by code_simp
  show ?thesis
    using success_iff_error_set[of "demo_engines offline_engine" default_pipeline
        "text_args ''hello'' ''en''"] e
    by simp
qed

text \<open>
  C10. Called with neither an audio reference nor a text (each \<open>None\<close> or empty),
  \<open>process\<close> returns a record with the success flag false, the error
  \<open>Either audio_path or text_input must be provided\<close> and every stage field at
  its default; no engine is called and the orchestrator is unchanged.
\<close>

theorem process_without_input:
  assumes "given (audio_path a) = None" and "given (text_input a) = None"
  shows "process env p a =
     \<lparr> result = (PipelineResult_init (audio_path a))
          \<lparr>success := False,
           error := Some ''Either audio_path or text_input must be provided'',
           total_time_ms := (perf_counter env 1 - perf_counter env 0) * 1000\<rparr>,
       pipeline = p, trace = [], ticks = 2 \<rparr>
     \<and> defaults_from 1 (result (process env p a))"
  using assms
  by (simp add: process_def stages_def stage1_asr_def now_def fresh_run_def
      defaults_from_def PipelineResult_init_def)

theorem process_without_input_witness:
  "given (audio_path \<lparr> audio_path = Some [], text_input = None, input_language = ''ml'',
                        output_audio_path = None \<rparr>) = None
   \<and> given (text_input \<lparr> audio_path = Some [], text_input = None, input_language = ''ml'',
                          output_audio_path = None \<rparr>) = None
   \<and> result (process (demo_engines offline_engine) default_pipeline
               \<lparr> audio_path = Some [], text_input = None, input_language = ''ml'',
                 output_audio_path = None \<rparr>)
       = (PipelineResult_init (Some []))
           \<lparr>success := False,
            error := Some ''Either audio_path or text_input must be provided'',
            total_time_ms := 1000\<rparr>"
proof -
  let ?a = "\<lparr> audio_path = Some [], text_input = None, input_language = ''ml'',
              output_audio_path = None \<rparr>"
  have g: "given (audio_path ?a) = None" "given (text_input ?a) = None"
    by (simp_all add: given_def)
  show ?thesis
    using process_without_input[OF g, of "demo_engines offline_engine" default_pipeline] g
    by (simp add: demo_engines_def)
qed

section \<open>The intent stage\<close>

text \<open>
  C5. An orchestrator built with intent detection enabled, on which
  \<open>load_components\<close> has not run, has no detector. Stage 3 is guarded by the
  detector being set, so it is skipped: whatever the input and the engines, the intent
  fields of the record stay at their defaults, the detector is never called and none is
  constructed.
\<close>

theorem unloaded_detector_is_skipped:
  "intent_fields (result (process env (VoiceAssistantPipeline_init e m l t d True) a))
     = ([], [], 0, [])
   \<and> list_all (\<lambda>c. \<not> stage_calls 3 c)
        (trace (process env (VoiceAssistantPipeline_init e m l t d True) a))
   \<and> intent_detector (pipeline (process env (VoiceAssistantPipeline_init e m l t d True) a))
       = None"
proof -
  let ?p = "VoiceAssistantPipeline_init e m l t d True"
  obtain out sa where
    run: "run_stages (stages env a) (snd (now env (fresh_run ?p a))) = (out, sa)"
    by (cases "run_stages (stages env a) (snd (now env (fresh_run ?p a)))")
  note fin = process_final[OF run]
  have "intent_untouched (snd (now env (fresh_run ?p a)))"
    by (simp add: intent_untouched_def intent_fields_def now_def fresh_run_def
        PipelineResult_init_def VoiceAssistantPipeline_init_def)
  from stages_intent_untouched[OF run this] have "intent_untouched sa" .
  then show ?thesis using fin by (simp add: intent_untouched_def)
qed




section \<open>The translation stages on English input\<close>




end
